theory Spec2Isabelle
  imports Complex_Main "HOL-Library.Log_Nat"
begin

section \<open>The request cache of \<open>src/shared/store/Network.js\<close>\<close>

text \<open>
  \<open>Network.fetch(url, {maxAge, retries, force})\<close> keeps one history item per url
  (\<open>data\<close>, \<open>ts\<close>, \<open>promise\<close>). It returns the running promise of the url, or
  the cached data, or it starts \<open>pRetry(run, {retries})\<close> and registers the new
  promise in the item.

  The code is asynchronous and single-threaded. The model is a state machine over the
  whole store. A call of \<open>fetch\<close> is one step: the function runs to its \<open>return\<close>
  without suspending. The end of the transport call of a running promise is one step:
  it runs the callbacks that the source chains on it, the two \<open>then\<close> of \<open>run\<close> and the
  \<open>then\<close> or \<open>catch\<close> that deletes \<open>item.promise\<close>. Time advances by explicit
  ticks. The decorators \<open>autobind\<close> and \<open>serverWait\<close> and the observers of the map are
  left out. The arithmetic of the freshness test is that of JavaScript numbers: each
  division and the subtraction round to the nearest double.
\<close>

subsection \<open>Values\<close>

text \<open>What \<open>res.json()\<close> can produce; a number is given by its value.\<close>

datatype jsval =
    JNull
  | JBool bool
  | JNum rat
  | JStr string
  | JArr "jsval list"
  | JObj "(string \<times> jsval) list"

text \<open>JavaScript truthiness, as \<open>if (item.data)\<close> tests it.\<close>

fun truthy :: "jsval \<Rightarrow> bool" where
  "truthy JNull = False"
| "truthy (JBool b) = b"
| "truthy (JNum n) = (n \<noteq> 0)"
| "truthy (JStr s) = (s \<noteq> [])"
| "truthy (JArr xs) = True"
| "truthy (JObj kvs) = True"

text \<open>
  The reasons a promise rejects with: the \<open>pRetry.AbortError\<close> thrown in \<open>run\<close> with its
  message, a rejection of the transport call itself, a rejection of \<open>res.json()\<close>.
\<close>

datatype error = AbortError string | FetchError | ParseError

text \<open>
  What the transport call \<open>fetch(url)\<close> of \<open>run\<close> ends with: a rejection, or a response
  with a status and the result of parsing its body (\<open>None\<close> when \<open>res.json()\<close> rejects).
\<close>

datatype response = Failed | Response nat "jsval option"

datatype outcome = Pending | Fulfilled jsval | Rejected error

subsection \<open>Numbers\<close>

text \<open>
  A JavaScript number is an IEEE 754 double: a rational that has a 53 bit significand
  and an exponent in range, an infinity, or NaN. The two zeros are not told apart: no
  operation modelled here depends on the sign of zero.
\<close>

datatype number = NaN | MinusInfinity | Finite rat | PlusInfinity

text \<open>For \<open>x > 0\<close>, the exponent \<open>e\<close> with \<open>2 ^ e \<le> x < 2 ^ (e + 1)\<close>.\<close>

definition exponent :: "rat \<Rightarrow> int" where
  "exponent x = (if 1 \<le> x then bitlen \<lfloor>x\<rfloor> - 1 else - bitlen (\<lceil>1 / x\<rceil> - 1))"

text \<open>The nearest integer, the even one of the two when they are equally near.\<close>

definition nearest_even :: "rat \<Rightarrow> int" where
  "nearest_even y =
     (let f = \<lfloor>y\<rfloor>; r = y - of_int f
      in if r < 1 / 2 then f else if 1 / 2 < r then f + 1 else if even f then f else f + 1)"

text \<open>
  The double nearest to a rational, as every arithmetic operation and the reading of a
  literal round their exact result: 53 bits from the leading one, the spacing of the
  subnormal numbers below \<open>2 ^ -1022\<close>, an infinity from \<open>2 ^ 1024\<close> on.
\<close>

definition round_double :: "rat \<Rightarrow> number" where
  "round_double x =
     (if x = 0 then Finite 0
      else
        let u = 2 powi (max (exponent \<bar>x\<bar>) (- 1022) - 52);
            y = of_int (nearest_even (\<bar>x\<bar> / u)) * u
        in if 2 ^ 1024 \<le> y then (if x < 0 then MinusInfinity else PlusInfinity)
           else Finite (if x < 0 then - y else y))"

text \<open>The operations of the freshness test: \<open>x / 1000\<close>, \<open>a - b\<close> and \<open>a <= b\<close>.\<close>

fun per_1000 :: "number \<Rightarrow> number" where
  "per_1000 (Finite x) = round_double (x / 1000)"
| "per_1000 n = n"

fun subtract :: "number \<Rightarrow> number \<Rightarrow> number" where
  "subtract (Finite a) (Finite b) = round_double (a - b)"
| "subtract NaN b = NaN"
| "subtract a NaN = NaN"
| "subtract PlusInfinity PlusInfinity = NaN"
| "subtract MinusInfinity MinusInfinity = NaN"
| "subtract PlusInfinity b = PlusInfinity"
| "subtract MinusInfinity b = MinusInfinity"
| "subtract (Finite a) PlusInfinity = MinusInfinity"
| "subtract (Finite a) MinusInfinity = PlusInfinity"

fun at_most :: "number \<Rightarrow> number \<Rightarrow> bool" where
  "at_most NaN b = False"
| "at_most a NaN = False"
| "at_most MinusInfinity b = True"
| "at_most a PlusInfinity = True"
| "at_most PlusInfinity b = False"
| "at_most a MinusInfinity = False"
| "at_most (Finite a) (Finite b) = (a \<le> b)"

text \<open>\<open>(now / 1000) - (item.ts / 1000)\<close> for two values of \<open>getTime()\<close>.\<close>

definition age :: "int \<Rightarrow> int \<Rightarrow> number" where
  "age now t = subtract (per_1000 (Finite (of_int now))) (per_1000 (Finite (of_int t)))"

subsection \<open>The store\<close>

text \<open>A history item: \<open>None\<close> is a property the object does not have.\<close>

record item =
  data :: "jsval option"
  ts :: "int option"
  promise :: "nat option"

text \<open>
  \<open>maxAge\<close>: the default \<open>Infinity\<close>, or a finite number given by the value of its
  literal, which JavaScript reads as the nearest double.
\<close>

datatype maxage = Infinity | Seconds rat

record options =
  maxAge :: maxage
  retries :: nat
  force :: bool

text \<open>The default parameters \<open>{ maxAge = Infinity, retries = 1, force = false }\<close>.\<close>

definition defaults :: options where
  "defaults = \<lparr>maxAge = Infinity, retries = 1, force = False\<rparr>"

text \<open>
  A promise made by \<open>pRetry(run, { retries })\<close> and the two handlers chained on it: the url
  whose item its closures hold, the retries it has left, and its state.
\<close>

record retrying =
  r_url :: string
  r_left :: nat
  r_state :: outcome

text \<open>
  The whole store: \<open>Network.history\<close>, the promises made so far (named by numbers, \<open>fresh\<close>
  the next one), the clock \<open>new Date().getTime()\<close> in milliseconds, and the log of the
  transport calls, each with the promise whose \<open>run\<close> made it.
\<close>

record network =
  history :: "string \<Rightarrow> item option"
  promises :: "nat \<Rightarrow> retrying option"
  fresh :: nat
  clock :: int
  transport :: "(string \<times> nat) list"

definition init :: "int \<Rightarrow> network" where
  "init t = \<lparr>history = (\<lambda>u. None), promises = (\<lambda>p. None), fresh = 0, clock = t,
     transport = []\<rparr>"

text \<open>What \<open>fetch\<close> returns: a promise of the store, or \<open>Promise.resolve(item.data)\<close>.\<close>

datatype future = Promise nat | Resolved jsval

subsection \<open>\<open>Network.fetch\<close>\<close>

text \<open>\<open>!force && item.promise && item.promise.then\<close>: the promise to return, if any.\<close>

definition running :: "options \<Rightarrow> item \<Rightarrow> nat option" where
  "running opts it = (if \<not> force opts then promise it else None)"

text \<open>
  \<open>(now / 1000) - (item.ts / 1000) <= maxAge\<close>. A missing \<open>ts\<close> makes the left side NaN
  and the comparison false. The clock and the timestamps are values of \<open>getTime()\<close>, at
  most \<open>8.64e15\<close> in absolute value, so the age is a finite double, and every finite
  double is at most \<open>Infinity\<close>.
\<close>

fun young :: "int \<Rightarrow> int option \<Rightarrow> maxage \<Rightarrow> bool" where
  "young now None m = False"
| "young now (Some t) Infinity = True"
| "young now (Some t) (Seconds m) = at_most (age now t) (round_double m)"

text \<open>The block \<open>if (item.data) { ... }\<close>: the data to resolve with, if any.\<close>

definition cached :: "options \<Rightarrow> int \<Rightarrow> item \<Rightarrow> jsval option" where
  "cached opts now it =
     (case data it of
        None \<Rightarrow> None
      | Some d \<Rightarrow> if truthy d \<and> young now (ts it) (maxAge opts) then Some d else None)"

text \<open>
  The tail of \<open>fetch\<close>: \<open>const promise = pRetry(run, { retries }).then(...).catch(...);
  item.promise = promise; return promise\<close>. \<open>pRetry\<close> calls \<open>run\<close> a first time
  whatever \<open>retries\<close> is, so the first transport call is logged here.
\<close>

definition start :: "string \<Rightarrow> nat \<Rightarrow> network \<Rightarrow> future \<times> network" where
  "start url n s =
     (let p = fresh s in
      (Promise p,
       s\<lparr>history := (history s)(url := map_option (\<lambda>it. it\<lparr>promise := Some p\<rparr>) (history s url)),
         promises := (promises s)(p := Some \<lparr>r_url = url, r_left = n, r_state = Pending\<rparr>),
         fresh := Suc p,
         transport := transport s @ [(url, p)]\<rparr>))"

text \<open>\<open>if (!history.has(url)) history.set(url, {}); const item = history.get(url)\<close>.\<close>

definition lookup :: "network \<Rightarrow> string \<Rightarrow> item" where
  "lookup s url =
     (case history s url of
        None \<Rightarrow> \<lparr>data = None, ts = None, promise = None\<rparr>
      | Some it \<Rightarrow> it)"

definition fetch :: "string \<Rightarrow> options \<Rightarrow> network \<Rightarrow> future \<times> network" where
  "fetch url opts s =
     (let it = lookup s url;
          s1 = s\<lparr>history := (history s)(url := Some it)\<rparr>
      in case running opts it of
           Some p \<Rightarrow> (Promise p, s1)
         | None \<Rightarrow>
             (case cached opts (clock s1) it of
                Some d \<Rightarrow> (Resolved d, s1)
              | None \<Rightarrow> start url (retries opts) s1))"

subsection \<open>The callbacks\<close>

text \<open>
  The second \<open>then\<close> of \<open>run\<close>: \<open>item.ts = new Date().getTime(); item.data = data\<close>.
\<close>

definition store :: "string \<Rightarrow> jsval \<Rightarrow> network \<Rightarrow> network" where
  "store url d s =
     s\<lparr>history := (history s)(url :=
          map_option (\<lambda>it. it\<lparr>ts := Some (clock s), data := Some d\<rparr>) (history s url))\<rparr>"

text \<open>
  The handlers chained on \<open>pRetry\<close>: \<open>delete item.promise\<close>, then the promise settles with
  the data or the error.
\<close>

definition settle :: "nat \<Rightarrow> retrying \<Rightarrow> outcome \<Rightarrow> network \<Rightarrow> network" where
  "settle p r out s =
     s\<lparr>history := (history s)(r_url r :=
          map_option (\<lambda>it. it\<lparr>promise := None\<rparr>) (history s (r_url r))),
       promises := (promises s)(p := Some (r\<lparr>r_state := out\<rparr>))\<rparr>"

text \<open>
  Modelled from the spec: the retry capability \<open>pRetry\<close> is a library outside the
  repository. After a failure of \<open>run\<close> that is not an \<open>AbortError\<close> it calls \<open>run\<close>
  again while retries are left (\<open>retries\<close> counts the calls after the first one), and
  rejects with the error of the last call otherwise.
\<close>

definition again :: "nat \<Rightarrow> retrying \<Rightarrow> error \<Rightarrow> network \<Rightarrow> network" where
  "again p r e s =
     (if 0 < r_left r
      then s\<lparr>promises := (promises s)(p := Some (r\<lparr>r_left := r_left r - 1\<rparr>)),
             transport := transport s @ [(r_url r, p)]\<rparr>
      else settle p r (Rejected e) s)"

text \<open>
  The transport call of promise \<open>p\<close> ends with \<open>res\<close>:
  \<open>fetch(url).then((res) => { if (res.status === 404) throw new
  pRetry.AbortError('404 Not found'); return res.json(); }).then((data) => { ... })\<close>.
  The \<open>AbortError\<close> ends \<open>pRetry\<close> at once, whatever retries are left. A promise that
  has settled has no transport call left to end.
\<close>

definition reply :: "nat \<Rightarrow> response \<Rightarrow> network \<Rightarrow> network" where
  "reply p res s =
     (case promises s p of
        None \<Rightarrow> s
      | Some r \<Rightarrow>
          if r_state r \<noteq> Pending then s
          else
            (case res of
               Failed \<Rightarrow> again p r FetchError s
             | Response st body \<Rightarrow>
                 if st = 404 then settle p r (Rejected (AbortError ''404 Not found'')) s
                 else
                   (case body of
                      None \<Rightarrow> again p r ParseError s
                    | Some d \<Rightarrow> settle p r (Fulfilled d) (store (r_url r) d s))))"

subsection \<open>Runs\<close>

datatype event = Tick nat | Reply nat response | Call string options

fun step :: "event \<Rightarrow> network \<Rightarrow> network" where
  "step (Tick d) s = s\<lparr>clock := clock s + int d\<rparr>"
| "step (Reply p res) s = reply p res s"
| "step (Call url opts) s = snd (fetch url opts s)"

definition execute :: "event list \<Rightarrow> network \<Rightarrow> network" where
  "execute evs s = fold step evs s"

subsection \<open>Observations\<close>

text \<open>The promise registered in the item of a url, and the state of a promise.\<close>

definition inflight :: "network \<Rightarrow> string \<Rightarrow> nat option" where
  "inflight s url = promise (lookup s url)"

definition state_of :: "network \<Rightarrow> nat \<Rightarrow> outcome option" where
  "state_of s p = map_option r_state (promises s p)"

text \<open>The call joins a running promise; the call is served from the cache.\<close>

definition joins :: "network \<Rightarrow> string \<Rightarrow> options \<Rightarrow> nat option" where
  "joins s url opts = running opts (lookup s url)"

definition serves :: "network \<Rightarrow> string \<Rightarrow> options \<Rightarrow> jsval option" where
  "serves s url opts = cached opts (clock s) (lookup s url)"

subsection \<open>Auxiliary notions for the properties\<close>

text \<open>Several calls of \<open>fetch\<close> for one url, one after the other, with no step between.\<close>

fun calls :: "string \<Rightarrow> options list \<Rightarrow> network \<Rightarrow> future list \<times> network" where
  "calls k [] s = ([], s)"
| "calls k (opts # rest) s =
     (let (f, s1) = fetch k opts s; (fs, s2) = calls k rest s1 in (f # fs, s2))"

text \<open>What a caller holding the future sees in a store.\<close>

definition settled_as :: "network \<Rightarrow> future \<Rightarrow> outcome" where
  "settled_as s f =
     (case f of
        Resolved d \<Rightarrow> Fulfilled d
      | Promise p \<Rightarrow> (case promises s p of None \<Rightarrow> Pending | Some r \<Rightarrow> r_state r))"

text \<open>
  An answer that makes \<open>run\<close> fail without an \<open>AbortError\<close>: the transport call
  rejects, or the status is not 404 and the body does not parse. \<open>reason\<close> is the error
  \<open>run\<close> rejects with.
\<close>

fun retryable :: "response \<Rightarrow> bool" where
  "retryable Failed = True"
| "retryable (Response st body) = (st \<noteq> 404 \<and> body = None)"

fun reason :: "response \<Rightarrow> error" where
  "reason Failed = FetchError"
| "reason (Response st body) = ParseError"

text \<open>
  The event stores data in the item of \<open>k\<close>: it is a parsed answer to a pending promise
  of \<open>k\<close>. A run is undisturbed for \<open>k\<close> when none of its events does.
\<close>

fun writes :: "string \<Rightarrow> event \<Rightarrow> network \<Rightarrow> bool" where
  "writes k (Reply p (Response st (Some d))) s =
     (st \<noteq> 404 \<and>
      (case promises s p of
         None \<Rightarrow> False
       | Some r \<Rightarrow> r_state r = Pending \<and> r_url r = k))"
| "writes k ev s = False"

fun undisturbed :: "string \<Rightarrow> event list \<Rightarrow> network \<Rightarrow> bool" where
  "undisturbed k [] s = True"
| "undisturbed k (ev # evs) s = (\<not> writes k ev s \<and> undisturbed k evs (step ev s))"

text \<open>Every registered promise is a pending promise of its url, made earlier.\<close>

definition tidy :: "network \<Rightarrow> bool" where
  "tidy s \<longleftrightarrow>
     (\<forall>k p. inflight s k = Some p \<longrightarrow>
        p < fresh s \<and> (\<exists>r. promises s p = Some r \<and> r_state r = Pending \<and> r_url r = k))"

subsection \<open>Example runs\<close>

text \<open>
  Stores used as concrete inputs: the first fetch of \<open>/items\<close> is still running
  (\<open>busy\<close>), has failed once (\<open>retried\<close>), was answered with the JSON string
  \<open>"ok"\<close> (\<open>warm\<close>, and one minute and more later, \<open>edge\<close> one second later) or with the
  JSON number \<open>0\<close> (\<open>zero\<close>); forced refreshes that fail; a forced fetch that overtakes
  the first one.
\<close>

definition busy :: network where
  "busy = execute [Call ''/items'' defaults] (init 1000)"

definition retried :: network where
  "retried = execute [Call ''/items'' defaults, Reply 0 Failed] (init 1000)"

definition warm :: network where
  "warm = execute [Call ''/items'' defaults, Reply 0 (Response 200 (Some (JStr ''ok'')))] (init 1000)"

definition zero :: network where
  "zero = execute [Call ''/items'' defaults, Reply 0 (Response 200 (Some (JNum 0)))] (init 1000)"

definition later :: network where
  "later = execute [Tick 60000] warm"

definition stale :: network where
  "stale = execute [Tick 61000] warm"

definition edge :: network where
  "edge = execute [Call ''/items'' defaults, Reply 0 (Response 200 (Some (JStr ''ok''))),
     Tick 1000] (init 1003)"

definition refresh_failed :: network where
  "refresh_failed = execute [Call ''/items'' \<lparr>maxAge = Infinity, retries = 0, force = True\<rparr>,
     Reply 1 Failed] zero"

definition refresh_lost :: network where
  "refresh_lost = reply 1 (Response 500 None)
     (execute [Call ''/items'' defaults, Tick 500, Reply 1 Failed, Call ''/other'' defaults,
        Reply 2 (Response 200 (Some (JNum 7)))]
       (snd (fetch ''/items'' (defaults\<lparr>force := True, maxAge := Seconds 0\<rparr>)
          (execute [Tick 1000] warm))))"

definition overtaken :: network where
  "overtaken = execute [Call ''/items'' defaults,
     Call ''/items'' \<lparr>maxAge = Infinity, retries = 0, force = True\<rparr>,
     Reply 0 (Response 200 (Some (JStr ''ok''))), Reply 1 Failed] (init 1000)"

definition raced :: network where
  "raced = execute [Call ''/items'' defaults, Call ''/items'' (defaults\<lparr>force := True\<rparr>),
     Reply 0 (Response 200 (Some (JStr ''ok'')))] (init 1000)"

definition raced_lost :: network where
  "raced_lost = execute [Call ''/items'' defaults, Call ''/items'' (defaults\<lparr>force := True\<rparr>),
     Reply 0 (Response 404 None)] (init 1000)"

section \<open>Basic facts\<close>

lemmas model_defs = execute_def fetch_def lookup_def running_def cached_def start_def store_def
  settle_def again_def reply_def init_def defaults_def inflight_def state_of_def joins_def
  serves_def Let_def

lemma execute_Nil: "execute [] s = s"
  by (simp add: execute_def)

lemma execute_Cons: "execute (ev # evs) s = execute evs (step ev s)"
  by (simp add: execute_def)

lemma touch_same: "history s url = Some it \<Longrightarrow> s\<lparr>history := (history s)(url := Some it)\<rparr> = s"
  by (simp add: fun_upd_idem)

lemma lookup_Some: "history s url = Some it \<Longrightarrow> lookup s url = it"
  by (simp add: lookup_def)

subsection \<open>Rounding\<close>

lemma nearest_even_int: "nearest_even (of_int n) = n"
  by (simp add: nearest_even_def)

lemma nearest_even_eqI:
  assumes "\<bar>y - of_int n\<bar> < 1 / 2"
  shows "nearest_even y = n"
proof -
  let ?f = "\<lfloor>y\<rfloor>"
  have f: "of_int ?f \<le> y" "y < of_int ?f + 1"
    by linarith+
  have "n = ?f \<or> n = ?f + 1"
  proof -
    have "of_int n < y + 1 / 2" "y - 1 / 2 < of_int n" using assms by linarith+
    with f have "(of_int n :: rat) < of_int ?f + 2" "(of_int ?f :: rat) - 1 < of_int n"
      by linarith+
    then have "n < ?f + 2" "?f - 1 < n"
      by (metis of_int_less_iff of_int_add of_int_numeral, metis of_int_less_iff of_int_diff of_int_1)
    then show ?thesis by linarith
  qed
  then show ?thesis
  proof
    assume n: "n = ?f"
    with assms f have "y - of_int ?f < 1 / 2" by linarith
    then show ?thesis by (simp add: nearest_even_def Let_def n)
  next
    assume n: "n = ?f + 1"
    with assms f have "1 / 2 < y - of_int ?f" by simp
    then show ?thesis by (simp add: nearest_even_def Let_def n)
  qed
qed

lemma bitlen_eqI:
  assumes "0 \<le> w" and "2 ^ nat w \<le> m" and "m < 2 ^ nat (w + 1)"
  shows "bitlen m = w + 1"
proof (rule antisym)
  show "bitlen m \<le> w + 1"
    using assms(1,3) by (simp add: bitlen_le_iff_power)
  have "nat (w + 1) - 1 = nat w" using assms(1) by simp
  then show "w + 1 \<le> bitlen m"
    using assms(2) by (simp add: bitlen_ge_iff_power)
qed

lemma exponent_eqI:
  assumes "2 powi e \<le> x" and "x < 2 powi (e + 1)"
  shows "exponent x = e"
proof (cases "1 \<le> x")
  case True
  have e: "0 \<le> e"
  proof (rule ccontr)
    assume "\<not> 0 \<le> e"
    then have "e + 1 \<le> 0" by simp
    then have "(2::rat) powi (e + 1) \<le> 1"
      by (auto simp: power_int_def intro!: power_le_one)
    with assms(2) True show False by simp
  qed
  have p: "(2::rat) powi e = of_int (2 ^ nat e)" "(2::rat) powi (e + 1) = of_int (2 ^ nat (e + 1))"
    using e by (simp_all add: power_int_def)
  have "2 ^ nat e \<le> \<lfloor>x\<rfloor>"
    using assms(1) unfolding p by (simp only: le_floor_iff)
  moreover have "\<lfloor>x\<rfloor> < 2 ^ nat (e + 1)"
    using assms(2) unfolding p by (simp only: floor_less_iff)
  ultimately have "bitlen \<lfloor>x\<rfloor> = e + 1"
    using e by (intro bitlen_eqI)
  with True show ?thesis by (simp add: exponent_def)
next
  case False
  have "(0::rat) < 2 powi e" by simp
  with assms(1) have x: "0 < x" by linarith
  have e: "e < 0"
  proof (rule ccontr)
    assume "\<not> e < 0"
    then have "(1::rat) \<le> 2 powi e" by simp
    with assms(1) False show False by simp
  qed
  define j where "j = - e - 1"
  have j: "0 \<le> j" "e = - (j + 1)" "e + 1 = - j" using e by (simp_all add: j_def)
  have p: "(2::rat) powi e = inverse (of_int (2 ^ nat (j + 1)))"
    "(2::rat) powi (e + 1) = inverse (of_int (2 ^ nat j))"
  proof -
    have n: "(2::rat) powi (j + 1) = 2 ^ nat (j + 1)" "(2::rat) powi j = 2 ^ nat j"
      using j(1) by (simp_all only: power_int_nonneg_exp)
    have "(2::rat) powi e = inverse (2 powi (j + 1))"
      unfolding j(2) by (rule power_int_minus)
    then show "(2::rat) powi e = inverse (of_int (2 ^ nat (j + 1)))"
      by (simp only: n of_int_power of_int_numeral)
    have "(2::rat) powi (e + 1) = inverse (2 powi j)"
      unfolding j(3) by (rule power_int_minus)
    then show "(2::rat) powi (e + 1) = inverse (of_int (2 ^ nat j))"
      by (simp only: n of_int_power of_int_numeral)
  qed
  have lo: "of_int (2 ^ nat j) < 1 / x"
  proof -
    have "x * of_int (2 ^ nat j) < 1"
      using assms(2) unfolding p by (simp add: field_simps)
    with x show ?thesis by (simp add: field_simps)
  qed
  have hi: "1 / x \<le> of_int (2 ^ nat (j + 1))"
  proof -
    have "1 \<le> x * of_int (2 ^ nat (j + 1))"
      using assms(1) unfolding p by (simp add: field_simps)
    with x show ?thesis by (simp add: field_simps)
  qed
  have "2 ^ nat j < \<lceil>1 / x\<rceil>"
    using lo by (simp only: less_ceiling_iff)
  then have a: "2 ^ nat j \<le> \<lceil>1 / x\<rceil> - 1" by simp
  have "\<lceil>1 / x\<rceil> \<le> 2 ^ nat (j + 1)"
    using hi by (simp only: ceiling_le_iff)
  then have b: "\<lceil>1 / x\<rceil> - 1 < 2 ^ nat (j + 1)" by simp
  have "bitlen (\<lceil>1 / x\<rceil> - 1) = j + 1"
    using j(1) a b by (rule bitlen_eqI)
  with False show ?thesis by (simp add: exponent_def j(2))
qed

lemma round_double_eqI:
  assumes "0 < x" and "exponent x = e" and "- 1022 \<le> e"
    and "\<bar>x / 2 powi (e - 52) - of_int n\<bar> < 1 / 2"
    and "of_int n * 2 powi (e - 52) < (2::rat) ^ 1024"
  shows "round_double x = Finite (of_int n * 2 powi (e - 52))"
proof -
  have m: "max e (- 1022) = e" using assms(3) by simp
  have n: "nearest_even (x / 2 powi (e - 52)) = n"
    using assms(4) by (rule nearest_even_eqI)
  show ?thesis
    using assms(1,2,5) by (simp add: round_double_def Let_def m n)
qed

lemma round_double_nat:
  assumes "0 < n" and "n < 2 ^ 53"
  shows "round_double (of_int n) = Finite (of_int n)"
proof -
  define e where "e = bitlen n - 1"
  have b: "1 \<le> bitlen n" "bitlen n \<le> 53"
    using assms by (simp_all add: bitlen_le_iff_power bitlen_ge_iff_power)
  have x: "(1::rat) \<le> of_int n" using assms(1) by simp
  have ex: "exponent (of_int n) = e"
    using x by (simp add: exponent_def e_def)
  define k where "k = nat (52 - e)"
  have u: "(2::rat) powi (e - 52) = inverse (2 ^ k)"
  proof -
    have "e - 52 = - int k" using b by (simp add: k_def e_def)
    then show ?thesis by (simp add: power_int_minus)
  qed
  have s: "of_int n / (2::rat) powi (e - 52) = of_int (n * 2 ^ k)"
    by (simp add: u field_simps)
  have v: "of_int (n * 2 ^ k) * (2::rat) powi (e - 52) = of_int n"
    by (simp add: u field_simps)
  have big: "(of_int n :: rat) < 2 ^ 1024"
  proof -
    have "(of_int n :: rat) < of_int (2 ^ 53)" using assms(2) by (simp only: of_int_less_iff)
    also have "\<dots> \<le> 2 ^ 1024" by simp
    finally show ?thesis .
  qed
  have "round_double (of_int n) = Finite (of_int (n * 2 ^ k) * 2 powi (e - 52))"
  proof (rule round_double_eqI [OF _ ex])
    show "(0::rat) < of_int n" using assms(1) by simp
    show "- 1022 \<le> e" using b by (simp add: e_def)
    show "\<bar>of_int n / (2::rat) powi (e - 52) - of_int (n * 2 ^ k)\<bar> < 1 / 2"
      by (simp add: s)
    show "of_int (n * 2 ^ k) * (2::rat) powi (e - 52) < 2 ^ 1024"
      using big by (simp only: v)
  qed
  then show ?thesis by (simp only: v)
qed

lemma round_double_neg: "round_double (- x) = (case round_double x of
    Finite y \<Rightarrow> Finite (- y) | PlusInfinity \<Rightarrow> MinusInfinity
  | MinusInfinity \<Rightarrow> PlusInfinity | NaN \<Rightarrow> NaN)"
  by (simp add: round_double_def Let_def)

lemma round_double_int:
  assumes "\<bar>n\<bar> < 2 ^ 53"
  shows "round_double (of_int n) = Finite (of_int n)"
proof (cases "0 < n")
  case True
  with assms show ?thesis by (simp add: round_double_nat)
next
  case False
  show ?thesis
  proof (cases "n = 0")
    case True
    then show ?thesis by (simp add: round_double_def)
  next
    case False
    with \<open>\<not> 0 < n\<close> assms have "0 < - n" "- n < 2 ^ 53" by simp_all
    then have "round_double (of_int (- n)) = Finite (of_int (- n))"
      by (rule round_double_nat)
    then show ?thesis
      using round_double_neg [of "of_int (- n)"] by simp
  qed
qed

lemma age_whole_seconds:
  assumes "\<bar>a\<bar> < 2 ^ 52" and "\<bar>b\<bar> < 2 ^ 52"
  shows "age (1000 * a) (1000 * b) = Finite (of_int (a - b))"
proof -
  have a: "round_double (of_int a) = Finite (of_int a)"
    using assms(1) by (intro round_double_int) simp
  have b: "round_double (of_int b) = Finite (of_int b)"
    using assms(2) by (intro round_double_int) simp
  have "\<bar>a - b\<bar> < 2 ^ 53" using assms by simp
  then have "round_double (of_int (a - b)) = Finite (of_int (a - b))"
    by (rule round_double_int)
  then show ?thesis
    by (simp add: age_def a b)
qed

lemma young_whole_seconds:
  assumes "\<bar>a\<bar> < 2 ^ 52" and "\<bar>b\<bar> < 2 ^ 52" and "\<bar>c\<bar> < 2 ^ 53"
  shows "at_most (age (1000 * a) (1000 * b)) (round_double (of_int c)) = (a - b \<le> c)"
proof -
  have "at_most (age (1000 * a) (1000 * b)) (round_double (of_int c)) =
      (rat_of_int (a - b) \<le> rat_of_int c)"
    using assms by (simp only: age_whole_seconds round_double_int at_most.simps)
  then show ?thesis by (simp only: of_int_le_iff)
qed

text \<open>\<open>2003 / 1000 - 1003 / 1000\<close> is \<open>1.0000000000000002\<close>.\<close>

lemma double_2003: "round_double (2003 / 1000) = Finite (140948594587861 / 70368744177664)"
proof -
  have e: "exponent (2003 / 1000) = 1"
    by (rule exponent_eqI) simp_all
  have "round_double (2003 / 1000) = Finite (of_int 4510355026811552 * 2 powi (1 - 52))"
    by (rule round_double_eqI [OF _ e]) (simp_all add: power_int_minus)
  then show ?thesis by (simp add: power_int_minus)
qed

lemma double_1003: "round_double (1003 / 1000) = Finite (4517110426252607 / 4503599627370496)"
proof -
  have e: "exponent (1003 / 1000) = 0"
    by (rule exponent_eqI) simp_all
  have "round_double (1003 / 1000) = Finite (of_int 4517110426252607 * 2 powi (0 - 52))"
    by (rule round_double_eqI [OF _ e]) (simp_all add: power_int_minus)
  then show ?thesis by (simp add: power_int_minus)
qed

lemma double_difference:
  "round_double (140948594587861 / 70368744177664 - 4517110426252607 / 4503599627370496) =
     Finite (4503599627370497 / 4503599627370496)"
proof -
  have d: "(140948594587861 / 70368744177664 - 4517110426252607 / 4503599627370496 :: rat) =
      4503599627370497 / 4503599627370496"
    by simp
  have e: "exponent (4503599627370497 / 4503599627370496) = 0"
    by (rule exponent_eqI) simp_all
  have "round_double (4503599627370497 / 4503599627370496) =
      Finite (of_int 4503599627370497 * 2 powi (0 - 52))"
    by (rule round_double_eqI [OF _ e]) (simp_all add: power_int_minus)
  then show ?thesis by (simp add: d power_int_minus)
qed

lemma age_2003_1003: "age 2003 1003 = Finite (4503599627370497 / 4503599627370496)"
  by (simp only: age_def per_1000.simps subtract.simps of_int_numeral double_2003 double_1003
      double_difference)

subsection \<open>The three ways out of \<open>fetch\<close>\<close>

lemma joins_iff: "joins s k opts = None \<longleftrightarrow> force opts \<or> inflight s k = None"
  by (simp add: joins_def running_def inflight_def)

lemma serves_iff:
  "serves s k opts = Some d \<longleftrightarrow>
     data (lookup s k) = Some d \<and> truthy d \<and> young (clock s) (ts (lookup s k)) (maxAge opts)"
  by (auto simp: serves_def cached_def split: option.splits)

lemma fetch_joins:
  assumes "history s k = Some it" and "joins s k opts = Some p"
  shows "fetch k opts s = (Promise p, s)"
  using assms by (simp add: fetch_def joins_def Let_def lookup_Some touch_same)

lemma fetch_serves:
  assumes "history s k = Some it" and "joins s k opts = None" and "serves s k opts = Some d"
  shows "fetch k opts s = (Resolved d, s)"
  using assms by (simp add: fetch_def joins_def serves_def Let_def lookup_Some touch_same)

lemma fetch_serves_fst:
  assumes "joins s k opts = None" and "serves s k opts = Some d"
  shows "fst (fetch k opts s) = Resolved d \<and> transport (snd (fetch k opts s)) = transport s"
  using assms by (simp add: fetch_def joins_def serves_def Let_def)

lemma serves_SomeI:
  assumes "history s k = Some it" and "data it = Some d" and "truthy d"
    and "young (clock s) (ts it) (maxAge opts)"
  shows "serves s k opts = Some d"
  using assms by (simp add: serves_def cached_def lookup_Some)

lemma fetch_starts:
  assumes "joins s url opts = None" and "serves s url opts = None"
  shows "fetch url opts s =
    start url (retries opts) (s\<lparr>history := (history s)(url := Some (lookup s url))\<rparr>)"
  using assms by (simp add: fetch_def joins_def serves_def Let_def)

lemma fetch_starts_fst:
  assumes "joins s url opts = None" and "serves s url opts = None"
  shows "fst (fetch url opts s) = Promise (fresh s)"
  using assms by (simp add: fetch_starts start_def Let_def)

lemma fetch_starts_transport:
  assumes "joins s url opts = None" and "serves s url opts = None"
  shows "transport (snd (fetch url opts s)) = transport s @ [(url, fresh s)]"
  using assms by (simp add: fetch_starts start_def Let_def)

lemma fetch_starts_inflight:
  assumes "joins s url opts = None" and "serves s url opts = None"
  shows "inflight (snd (fetch url opts s)) url = Some (fresh s)"
  using assms by (simp add: fetch_starts start_def Let_def inflight_def lookup_def)

lemma fetch_starts_state:
  assumes "joins s k opts = None" and "serves s k opts = None"
  shows "snd (fetch k opts s) =
     s\<lparr>history := (history s)(k := Some ((lookup s k)\<lparr>promise := Some (fresh s)\<rparr>)),
       promises := (promises s)(fresh s :=
          Some \<lparr>r_url = k, r_left = retries opts, r_state = Pending\<rparr>),
       fresh := Suc (fresh s),
       transport := transport s @ [(k, fresh s)]\<rparr>"
  using assms by (simp add: fetch_starts start_def Let_def)

lemma start_registers:
  assumes "joins s k opts = None" and "serves s k opts = None"
  shows "\<exists>it. history (snd (fetch k opts s)) k = Some it \<and> promise it = Some (fresh s)"
  using assms by (simp add: fetch_starts start_def Let_def)

lemma first_call_starts:
  assumes "history s k = None"
  shows "joins s k opts = None" and "serves s k opts = None"
  using assms by (simp_all add: joins_def serves_def running_def cached_def lookup_def)

subsection \<open>The answers of the transport\<close>

lemma reply_404:
  assumes "promises s p = Some r" and "r_state r = Pending"
  shows "reply p (Response 404 body) s = settle p r (Rejected (AbortError ''404 Not found'')) s"
  using assms by (simp add: reply_def)

lemma reply_parsed:
  assumes "promises s p = Some r" and "r_state r = Pending" and "st \<noteq> 404"
  shows "reply p (Response st (Some d)) s = settle p r (Fulfilled d) (store (r_url r) d s)"
  using assms by (simp add: reply_def)

lemma reply_unparsed:
  assumes "promises s p = Some r" and "r_state r = Pending" and "st \<noteq> 404"
  shows "reply p (Response st None) s = again p r ParseError s"
  using assms by (simp add: reply_def)

lemma reply_failed:
  assumes "promises s p = Some r" and "r_state r = Pending"
  shows "reply p Failed s = again p r FetchError s"
  using assms by (simp add: reply_def)

lemma reply_retryable:
  assumes "retryable res"
  shows "reply p res s =
     (case promises s p of
        None \<Rightarrow> s
      | Some r \<Rightarrow> if r_state r \<noteq> Pending then s else again p r (reason res) s)"
  using assms by (cases res) (auto simp: reply_def split: option.splits)

lemma reply_settled:
  assumes "promises s p = Some r" and "r_state r \<noteq> Pending"
  shows "reply p res s = s"
  using assms by (simp add: reply_def)

lemma reply_other: "q \<noteq> p \<Longrightarrow> promises (reply p res s) q = promises s q"
  by (cases res)
    (auto simp: reply_def again_def settle_def store_def split: if_splits option.splits)

lemma reply_fresh: "fresh (reply p res s) = fresh s"
  by (cases res)
    (auto simp: reply_def again_def settle_def store_def split: if_splits option.splits)

lemma reply_url:
  assumes "promises s q = Some r"
  shows "\<exists>r'. promises (reply p res s) q = Some r' \<and> r_url r' = r_url r \<and>
    (r_state r \<noteq> Pending \<longrightarrow> r' = r)"
  using assms
  by (cases res; cases "q = p")
    (auto simp: reply_def again_def settle_def store_def split: if_splits option.splits)

lemma settling_deletes:
  assumes "promises s p = Some r" and "r_state r = Pending"
    and "state_of (reply p res s) p \<noteq> Some Pending"
  shows "inflight (reply p res s) (r_url r) = None"
  using assms
  by (cases res)
    (auto simp: reply_def again_def settle_def store_def state_of_def inflight_def lookup_def
      split: if_splits option.splits)

subsection \<open>Registered promises are pending\<close>

lemma tidy_init: "tidy (init t)"
  by (simp add: tidy_def init_def inflight_def lookup_def)

lemma tidy_touch:
  "tidy s \<Longrightarrow> tidy (s\<lparr>history := (history s)(k := Some (lookup s k))\<rparr>)"
  by (auto simp: tidy_def inflight_def lookup_def split: option.splits if_splits)

lemma tidy_start:
  assumes "tidy s" and "history s k \<noteq> None"
  shows "tidy (snd (start k n s))"
  unfolding tidy_def
proof (intro allI impI)
  fix u p
  assume a: "inflight (snd (start k n s)) u = Some p"
  show "p < fresh (snd (start k n s)) \<and>
     (\<exists>r. promises (snd (start k n s)) p = Some r \<and> r_state r = Pending \<and> r_url r = u)"
  proof (cases "u = k")
    case True
    with a assms(2) have "p = fresh s"
      by (auto simp: start_def Let_def inflight_def lookup_def)
    with True show ?thesis by (simp add: start_def Let_def)
  next
    case False
    with a have "inflight s u = Some p"
      by (simp add: start_def Let_def inflight_def lookup_def)
    with assms(1) have "p < fresh s" and "\<exists>r. promises s p = Some r \<and> r_state r = Pending \<and> r_url r = u"
      by (auto simp: tidy_def)
    then show ?thesis by (auto simp: start_def Let_def)
  qed
qed

lemma tidy_fetch:
  assumes "tidy s"
  shows "tidy (snd (fetch k opts s))"
proof -
  let ?s1 = "s\<lparr>history := (history s)(k := Some (lookup s k))\<rparr>"
  have t: "tidy ?s1" using assms by (rule tidy_touch)
  have h: "history ?s1 k \<noteq> None" by simp
  show ?thesis
    using t tidy_start [OF t h]
    by (auto simp: fetch_def Let_def split: option.splits)
qed

lemma tidy_reply:
  assumes "tidy s"
  shows "tidy (reply p res s)"
  unfolding tidy_def
proof (intro allI impI)
  fix u q
  assume a: "inflight (reply p res s) u = Some q"
  have b: "inflight s u = Some q"
    using a
    by (cases res)
      (auto simp: reply_def again_def settle_def store_def inflight_def lookup_def
        split: if_splits option.splits)
  with assms obtain r where r: "q < fresh s" "promises s q = Some r" "r_state r = Pending"
    "r_url r = u"
    by (auto simp: tidy_def)
  show "q < fresh (reply p res s) \<and>
     (\<exists>r. promises (reply p res s) q = Some r \<and> r_state r = Pending \<and> r_url r = u)"
  proof (cases "q = p")
    case False
    with r show ?thesis by (simp add: reply_fresh reply_other)
  next
    case True
    have "state_of (reply p res s) p = Some Pending"
    proof (rule ccontr)
      assume "state_of (reply p res s) p \<noteq> Some Pending"
      with r True have "inflight (reply p res s) u = None"
        using settling_deletes [of s p r res] by simp
      with a show False by simp
    qed
    moreover obtain r' where "promises (reply p res s) p = Some r'" "r_url r' = u"
      using reply_url [of s p r p res] r True by auto
    ultimately show ?thesis
      using r True by (simp add: reply_fresh state_of_def)
  qed
qed

lemma tidy_step: "tidy s \<Longrightarrow> tidy (step ev s)"
  by (cases ev) (simp_all add: tidy_reply tidy_fetch, simp add: tidy_def inflight_def lookup_def)

lemma tidy_execute: "tidy s \<Longrightarrow> tidy (execute evs s)"
  by (induction evs arbitrary: s) (simp_all add: execute_Nil execute_Cons tidy_step)

subsection \<open>Steps that store nothing in an item\<close>

lemma fetch_data:
  "data (lookup (snd (fetch u opts s)) k) = data (lookup s k) \<and>
   ts (lookup (snd (fetch u opts s)) k) = ts (lookup s k)"
  by (auto simp: fetch_def start_def Let_def lookup_def split: option.splits)

lemma fetch_keeps:
  assumes "promises s p = Some r" and "p < fresh s"
  shows "promises (snd (fetch u opts s)) p = Some r \<and> p < fresh (snd (fetch u opts s))"
  using assms by (auto simp: fetch_def start_def Let_def split: option.splits)

lemma reply_data:
  assumes "\<not> writes k (Reply p res) s"
  shows "data (lookup (reply p res s) k) = data (lookup s k) \<and>
         ts (lookup (reply p res s) k) = ts (lookup s k)"
proof (cases res)
  case Failed
  then show ?thesis
    by (auto simp: reply_def again_def settle_def lookup_def split: option.splits)
next
  case (Response st body)
  show ?thesis
  proof (cases body)
    case None
    with Response show ?thesis
      by (auto simp: reply_def again_def settle_def lookup_def split: option.splits)
  next
    case (Some d)
    with Response assms show ?thesis
      by (auto simp: reply_def settle_def store_def lookup_def split: option.splits)
  qed
qed

lemma step_data:
  assumes "\<not> writes k ev s"
  shows "data (lookup (step ev s) k) = data (lookup s k) \<and>
         ts (lookup (step ev s) k) = ts (lookup s k)"
proof (cases ev)
  case (Tick d)
  then show ?thesis by (simp add: lookup_def)
next
  case (Reply p res)
  with assms show ?thesis by (simp add: reply_data)
next
  case (Call u opts)
  then show ?thesis by (simp add: fetch_data)
qed

lemma step_keeps:
  assumes "promises s p = Some r" and "p < fresh s"
  shows "\<exists>r'. promises (step ev s) p = Some r' \<and> r_url r' = r_url r \<and> p < fresh (step ev s)"
proof (cases ev)
  case (Tick d)
  with assms show ?thesis by simp
next
  case (Reply q res)
  with assms reply_url [OF assms(1), of q res] show ?thesis by (auto simp: reply_fresh)
next
  case (Call u opts)
  with fetch_keeps [OF assms] show ?thesis by simp
qed

lemma undisturbed_execute:
  assumes "undisturbed k evs s" and "promises s p = Some r" and "r_url r = k" and "p < fresh s"
  shows "data (lookup (execute evs s) k) = data (lookup s k) \<and>
         ts (lookup (execute evs s) k) = ts (lookup s k) \<and>
         (\<exists>r'. promises (execute evs s) p = Some r' \<and> r_url r' = k)"
  using assms
proof (induction evs arbitrary: s r)
  case Nil
  then show ?case by (simp add: execute_Nil)
next
  case (Cons ev evs)
  from Cons.prems(1) have w: "\<not> writes k ev s" and u: "undisturbed k evs (step ev s)"
    by simp_all
  obtain r' where r': "promises (step ev s) p = Some r'" "r_url r' = k" "p < fresh (step ev s)"
    using step_keeps [OF Cons.prems(2,4), of ev] Cons.prems(3) by auto
  from Cons.IH [OF u r'] step_data [OF w] show ?case
    by (simp add: execute_Cons)
qed

lemma rejecting_reply_data:
  assumes "promises s p = Some r" and "r_state r = Pending"
    and "state_of (reply p res s) p = Some (Rejected e)"
  shows "data (lookup (reply p res s) k) = data (lookup s k) \<and>
         ts (lookup (reply p res s) k) = ts (lookup s k)"
proof (rule reply_data)
  show "\<not> writes k (Reply p res) s"
  proof
    assume "writes k (Reply p res) s"
    then obtain st d where "res = Response st (Some d)" "st \<noteq> 404"
      by (cases res; cases "case res of Response st body \<Rightarrow> body | _ \<Rightarrow> None")
        (auto split: response.splits)
    with assms show False
      by (simp add: reply_def settle_def state_of_def)
  qed
qed

subsection \<open>Calls in a row\<close>

lemma calls_join:
  assumes "history s k = Some it" and "promise it = Some p" and "\<forall>opts \<in> set rest. \<not> force opts"
  shows "calls k rest s = (replicate (length rest) (Promise p), s)"
  using assms
proof (induction rest)
  case Nil
  then show ?case by simp
next
  case (Cons opts rest)
  then have "joins s k opts = Some p"
    by (simp add: joins_def running_def lookup_Some)
  then have "fetch k opts s = (Promise p, s)"
    using Cons.prems(1) by (rule fetch_joins [rotated])
  with Cons show ?case by simp
qed

lemma calls_state:
  assumes "history s k = None" and "\<forall>x \<in> set rest. \<not> force x"
  shows "calls k (opts # rest) s =
    (replicate (Suc (length rest)) (Promise (fresh s)), snd (fetch k opts s))"
proof -
  note j = first_call_starts [OF assms(1), of opts]
  obtain it where it: "history (snd (fetch k opts s)) k = Some it" "promise it = Some (fresh s)"
    using start_registers [OF j] by blast
  have r: "calls k rest (snd (fetch k opts s)) =
      (replicate (length rest) (Promise (fresh s)), snd (fetch k opts s))"
    using it assms(2) by (rule calls_join)
  show ?thesis
    using r fetch_starts_fst [OF j] by (simp add: case_prod_unfold)
qed

section \<open>The force flag\<close>

text \<open>
  C1. With \<open>force\<close> set, \<open>fetch\<close> skips the test for a running promise only. The
  freshness test still applies: truthy data that passes it, as the code computes it in
  doubles, is returned with no transport call and no change of the store. When no data
  is served, a new transport call is made and its promise registered, whether or not a
  promise was running.
\<close>

theorem C1_force_skips_only_the_running_promise:
  assumes "force opts"
  shows "(history s k = Some it \<and> data it = Some d \<and> truthy d \<and>
            young (clock s) (ts it) (maxAge opts) \<longrightarrow>
          fetch k opts s = (Resolved d, s)) \<and>
         (serves s k opts = None \<longrightarrow>
          fst (fetch k opts s) = Promise (fresh s) \<and>
          transport (snd (fetch k opts s)) = transport s @ [(k, fresh s)] \<and>
          inflight (snd (fetch k opts s)) k = Some (fresh s))"
proof -
  have j: "joins s k opts = None"
    using assms by (simp add: joins_def running_def)
  show ?thesis
    using fetch_serves [OF _ j] serves_SomeI fetch_starts_fst [OF j]
      fetch_starts_transport [OF j] fetch_starts_inflight [OF j]
    by blast
qed

theorem C1_witness:
  "force (defaults\<lparr>force := True\<rparr>) \<and>
   history warm ''/items'' = Some \<lparr>data = Some (JStr ''ok''), ts = Some 1000, promise = None\<rparr> \<and>
   truthy (JStr ''ok'') \<and>
   fetch ''/items'' (defaults\<lparr>force := True\<rparr>) warm = (Resolved (JStr ''ok''), warm) \<and>
   inflight busy ''/items'' = Some 0 \<and>
   serves busy ''/items'' (defaults\<lparr>force := True\<rparr>) = None \<and>
   fst (fetch ''/items'' (defaults\<lparr>force := True\<rparr>) busy) = Promise 1 \<and>
   transport (snd (fetch ''/items'' (defaults\<lparr>force := True\<rparr>) busy)) =
     [(''/items'', 0), (''/items'', 1)]"
proof -
  have f: "force (defaults\<lparr>force := True\<rparr>)" by simp
  have h: "history warm ''/items'' = Some \<lparr>data = Some (JStr ''ok''), ts = Some 1000, promise = None\<rparr>"
    by (simp add: warm_def model_defs)
  have y: "young (clock warm) (Some 1000) (maxAge (defaults\<lparr>force := True\<rparr>))"
    by (simp add: model_defs)
  have b: "inflight busy ''/items'' = Some 0" "serves busy ''/items'' (defaults\<lparr>force := True\<rparr>) = None"
    "fresh busy = 1" "transport busy = [(''/items'', 0)]"
    by (simp_all add: busy_def model_defs)
  show ?thesis
    using f h y b
      C1_force_skips_only_the_running_promise [OF f, of warm "''/items''"
        "\<lparr>data = Some (JStr ''ok''), ts = Some 1000, promise = None\<rparr>" "JStr ''ok''"]
      C1_force_skips_only_the_running_promise [OF f, of busy "''/items''"]
    by simp
qed

text \<open>
  A forced call does not always make a transport call: after a first fetch answered with
  \<open>"ok"\<close>, \<open>fetch('/items', {force: true})\<close> resolves with the cached data and the
  transport log stays as it was.
\<close>

theorem C1_counterexample:
  "fst (fetch ''/items'' (defaults\<lparr>force := True\<rparr>) warm) = Resolved (JStr ''ok'') \<and>
   transport (snd (fetch ''/items'' (defaults\<lparr>force := True\<rparr>) warm)) = transport warm \<and>
   transport warm = [(''/items'', 0)]"
  by (simp add: warm_def model_defs)

section \<open>Statuses other than 404\<close>

text \<open>
  C2. \<open>run\<close> looks at the status only to compare it with 404. For any other status the
  body alone decides. If it does not parse, the failure is retryable: while retries are
  left the transport is called again and the store keeps its history, and with none left
  the promise rejects and data and timestamp stay as they were. If it parses, the promise
  is fulfilled with the parsed value, which is stored with the time of the answer.
\<close>

theorem C2_only_the_body_decides:
  assumes "promises s p = Some r" and "r_state r = Pending"
    and "history s (r_url r) = Some it" and "st \<noteq> 404"
  shows "(0 < r_left r \<longrightarrow>
            state_of (reply p (Response st None) s) p = Some Pending \<and>
            map_option r_left (promises (reply p (Response st None) s) p) = Some (r_left r - 1) \<and>
            transport (reply p (Response st None) s) = transport s @ [(r_url r, p)] \<and>
            history (reply p (Response st None) s) = history s) \<and>
         (r_left r = 0 \<longrightarrow>
            state_of (reply p (Response st None) s) p = Some (Rejected ParseError) \<and>
            transport (reply p (Response st None) s) = transport s \<and>
            data (lookup (reply p (Response st None) s) (r_url r)) = data it \<and>
            ts (lookup (reply p (Response st None) s) (r_url r)) = ts it) \<and>
         state_of (reply p (Response st (Some d)) s) p = Some (Fulfilled d) \<and>
         data (lookup (reply p (Response st (Some d)) s) (r_url r)) = Some d \<and>
         ts (lookup (reply p (Response st (Some d)) s) (r_url r)) = Some (clock s)"
proof -
  have a: "0 < r_left r \<longrightarrow>
            state_of (reply p (Response st None) s) p = Some Pending \<and>
            map_option r_left (promises (reply p (Response st None) s) p) = Some (r_left r - 1) \<and>
            transport (reply p (Response st None) s) = transport s @ [(r_url r, p)] \<and>
            history (reply p (Response st None) s) = history s"
    using assms by (simp add: reply_unparsed again_def state_of_def)
  have b: "r_left r = 0 \<longrightarrow>
            state_of (reply p (Response st None) s) p = Some (Rejected ParseError) \<and>
            transport (reply p (Response st None) s) = transport s \<and>
            data (lookup (reply p (Response st None) s) (r_url r)) = data it \<and>
            ts (lookup (reply p (Response st None) s) (r_url r)) = ts it"
    using assms by (simp add: reply_unparsed again_def settle_def state_of_def lookup_def)
  have c: "state_of (reply p (Response st (Some d)) s) p = Some (Fulfilled d) \<and>
         data (lookup (reply p (Response st (Some d)) s) (r_url r)) = Some d \<and>
         ts (lookup (reply p (Response st (Some d)) s) (r_url r)) = Some (clock s)"
    using assms by (simp add: reply_parsed settle_def store_def state_of_def lookup_def)
  from a b c show ?thesis by blast
qed

theorem C2_witness:
  "promises busy 0 = Some \<lparr>r_url = ''/items'', r_left = 1, r_state = Pending\<rparr> \<and>
   history busy ''/items'' = Some \<lparr>data = None, ts = None, promise = Some 0\<rparr> \<and>
   (500::nat) \<noteq> 404 \<and>
   state_of (reply 0 (Response 500 None) busy) 0 = Some Pending \<and>
   transport (reply 0 (Response 500 None) busy) = [(''/items'', 0), (''/items'', 0)] \<and>
   state_of (reply 0 (Response 500 (Some (JNum 7))) busy) 0 = Some (Fulfilled (JNum 7)) \<and>
   data (lookup (reply 0 (Response 500 (Some (JNum 7))) busy) ''/items'') = Some (JNum 7) \<and>
   promises retried 0 = Some \<lparr>r_url = ''/items'', r_left = 0, r_state = Pending\<rparr> \<and>
   history retried ''/items'' = Some \<lparr>data = None, ts = None, promise = Some 0\<rparr> \<and>
   state_of (reply 0 (Response 500 None) retried) 0 = Some (Rejected ParseError) \<and>
   data (lookup (reply 0 (Response 500 None) retried) ''/items'') = None"
proof -
  have p1: "promises busy 0 = Some \<lparr>r_url = ''/items'', r_left = 1, r_state = Pending\<rparr>"
    and h1: "history busy ''/items'' = Some \<lparr>data = None, ts = None, promise = Some 0\<rparr>"
    and t1: "transport busy = [(''/items'', 0)]"
    by (simp_all add: busy_def model_defs)
  have p2: "promises retried 0 = Some \<lparr>r_url = ''/items'', r_left = 0, r_state = Pending\<rparr>"
    and h2: "history retried ''/items'' = Some \<lparr>data = None, ts = None, promise = Some 0\<rparr>"
    by (simp_all add: retried_def model_defs)
  have n: "(500::nat) \<noteq> 404" by simp
  show ?thesis
    using p1 h1 t1 p2 h2
      C2_only_the_body_decides [of busy 0 "\<lparr>r_url = ''/items'', r_left = 1, r_state = Pending\<rparr>"
        "\<lparr>data = None, ts = None, promise = Some 0\<rparr>" 500 "JNum 7"]
      C2_only_the_body_decides [of retried 0 "\<lparr>r_url = ''/items'', r_left = 0, r_state = Pending\<rparr>"
        "\<lparr>data = None, ts = None, promise = Some 0\<rparr>" 500 "JNum 7"]
    by simp
qed

text \<open>
  A status 500 with a body that parses is not a failure: the promise is fulfilled with
  the parsed body, and the body is cached.
\<close>

theorem C2_counterexample:
  "state_of (execute [Call ''/items'' defaults,
       Reply 0 (Response 500 (Some (JObj [(''error'', JStr ''boom'')])))] (init 1000)) 0 =
     Some (Fulfilled (JObj [(''error'', JStr ''boom'')])) \<and>
   data (lookup (execute [Call ''/items'' defaults,
       Reply 0 (Response 500 (Some (JObj [(''error'', JStr ''boom'')])))] (init 1000)) ''/items'') =
     Some (JObj [(''error'', JStr ''boom'')])"
  by (simp add: model_defs)

section \<open>Coalescing\<close>

text \<open>
  C3. Without \<open>force\<close>, a call for a url with a registered promise returns that promise
  and leaves the store as it is, so it makes no transport call. Hence calls in a row for
  a url with no item, all but the first without \<open>force\<close>, return one and the same
  promise and start one fetch: the calls make one transport call between them, every
  holder sees the same outcome in every store, and a retryable failure of that fetch
  with retries left makes a further transport call for the same promise.
\<close>

theorem C3_concurrent_calls_share_one_promise:
  "(\<not> force opts \<and> history s k = Some it \<and> promise it = Some p \<longrightarrow>
      fetch k opts s = (Promise p, s)) \<and>
   (history s k = None \<and> (\<forall>x \<in> set rest. \<not> force x) \<longrightarrow>
      fst (calls k (opts # rest) s) = replicate (Suc (length rest)) (Promise (fresh s)) \<and>
      transport (snd (calls k (opts # rest) s)) = transport s @ [(k, fresh s)] \<and>
      (\<forall>f \<in> set (fst (calls k (opts # rest) s)). \<forall>s'.
          settled_as s' f = settled_as s' (Promise (fresh s))) \<and>
      (retryable res \<and> 0 < retries opts \<longrightarrow>
         transport (reply (fresh s) res (snd (calls k (opts # rest) s))) =
           transport s @ [(k, fresh s), (k, fresh s)]))"
proof -
  have a: "fetch k opts s = (Promise p, s)"
    if "\<not> force opts" "history s k = Some it" "promise it = Some p"
  proof -
    have "joins s k opts = Some p"
      using that by (simp add: joins_def running_def lookup_Some)
    then show ?thesis using that(2) by (rule fetch_joins [rotated])
  qed
  have b: "fst (calls k (opts # rest) s) = replicate (Suc (length rest)) (Promise (fresh s)) \<and>
      transport (snd (calls k (opts # rest) s)) = transport s @ [(k, fresh s)] \<and>
      (retryable res \<and> 0 < retries opts \<longrightarrow>
         transport (reply (fresh s) res (snd (calls k (opts # rest) s))) =
           transport s @ [(k, fresh s), (k, fresh s)])"
    if h: "history s k = None" and nf: "\<forall>x \<in> set rest. \<not> force x"
  proof -
    note j = first_call_starts [OF h, of opts]
    note c = calls_state [OF h nf, of opts]
    have "transport (reply (fresh s) res (snd (fetch k opts s))) =
           transport s @ [(k, fresh s), (k, fresh s)]"
      if "retryable res" "0 < retries opts"
      using that by (simp add: reply_retryable fetch_starts_state [OF j] again_def)
    then show ?thesis
      using fetch_starts_transport [OF j] unfolding c by simp
  qed
  from a b show ?thesis by auto
qed

theorem C3_witness:
  "\<not> force defaults \<and>
   history busy ''/items'' = Some \<lparr>data = None, ts = None, promise = Some 0\<rparr> \<and>
   fetch ''/items'' defaults busy = (Promise 0, busy) \<and>
   history (init 1000) ''/items'' = None \<and>
   fst (calls ''/items'' [defaults, defaults, defaults] (init 1000)) =
     [Promise 0, Promise 0, Promise 0] \<and>
   transport (snd (calls ''/items'' [defaults, defaults, defaults] (init 1000))) = [(''/items'', 0)] \<and>
   retryable Failed \<and> 0 < retries defaults \<and>
   transport (reply 0 Failed (snd (calls ''/items'' [defaults, defaults, defaults] (init 1000)))) =
     [(''/items'', 0), (''/items'', 0)]"
proof -
  have h1: "history busy ''/items'' = Some \<lparr>data = None, ts = None, promise = Some 0\<rparr>"
    by (simp add: busy_def model_defs)
  have h2: "history (init 1000) ''/items'' = None" "fresh (init 1000) = 0"
    "transport (init 1000) = []" "\<not> force defaults" "0 < retries defaults"
    by (simp_all add: init_def defaults_def)
  show ?thesis
    using h1 h2
      C3_concurrent_calls_share_one_promise [of defaults busy "''/items''"
        "\<lparr>data = None, ts = None, promise = Some 0\<rparr>" 0 "[]" Failed]
      C3_concurrent_calls_share_one_promise [of defaults "init 1000" "''/items''"
        "\<lparr>data = None, ts = None, promise = Some 0\<rparr>" 0 "[defaults, defaults]" Failed]
    by (simp add: numeral_2_eq_2)
qed

text \<open>
  Two concurrent calls with the default options share promise 0, but the transport is
  called twice before they settle when the body of its first answer does not parse: the
  default is one retry.
\<close>

theorem C3_counterexample:
  "fst (calls ''/items'' [defaults, defaults] (init 1000)) = [Promise 0, Promise 0] \<and>
   transport (execute [Reply 0 (Response 502 None), Reply 0 (Response 200 (Some (JStr ''ok'')))]
      (snd (calls ''/items'' [defaults, defaults] (init 1000)))) =
     [(''/items'', 0), (''/items'', 0)] \<and>
   state_of (execute [Reply 0 (Response 502 None), Reply 0 (Response 200 (Some (JStr ''ok'')))]
      (snd (calls ''/items'' [defaults, defaults] (init 1000)))) 0 = Some (Fulfilled (JStr ''ok''))"
  by (simp add: model_defs)

section \<open>Freshness\<close>

text \<open>
  C4. For a url with truthy data \<open>d0\<close> written at \<open>t0\<close> and no registered promise,
  \<open>fetch\<close> with \<open>maxAge\<close> of \<open>m\<close> seconds at clock \<open>t1\<close> returns a future resolved with
  \<open>d0\<close> and leaves the store unchanged when the freshness test passes, and makes a
  transport call when it fails. The test compares the double \<open>t1 / 1000 - t0 / 1000\<close>
  with the double \<open>m\<close>. When \<open>t1\<close>, \<open>t0\<close> and \<open>m\<close> are whole seconds, it is exactly
  \<open>(t1 - t0) / 1000 \<le> m\<close>.
\<close>

theorem C4_truthy_data_served_while_fresh:
  assumes "history s k = Some it" and "data it = Some d0" and "truthy d0"
    and "ts it = Some t0" and "promise it = None" and "maxAge opts = Seconds m"
  shows "(at_most (age (clock s) t0) (round_double m) \<longrightarrow>
            fetch k opts s = (Resolved d0, s)) \<and>
         (\<not> at_most (age (clock s) t0) (round_double m) \<longrightarrow>
            fst (fetch k opts s) = Promise (fresh s) \<and>
            transport (snd (fetch k opts s)) = transport s @ [(k, fresh s)]) \<and>
         (clock s = 1000 * a \<and> t0 = 1000 * b \<and> m = of_int c \<and>
          \<bar>a\<bar> < 2 ^ 52 \<and> \<bar>b\<bar> < 2 ^ 52 \<and> \<bar>c\<bar> < 2 ^ 53 \<longrightarrow>
            at_most (age (clock s) t0) (round_double m) = (a - b \<le> c))"
proof -
  have j: "joins s k opts = None"
    using assms by (simp add: joins_def running_def lookup_Some)
  have y: "young (clock s) (ts it) (maxAge opts) = at_most (age (clock s) t0) (round_double m)"
    using assms by simp
  have a: "fetch k opts s = (Resolved d0, s)" if "at_most (age (clock s) t0) (round_double m)"
  proof -
    have "serves s k opts = Some d0"
      using assms(1-3) y that by (simp add: serves_def cached_def lookup_Some)
    with assms(1) j show ?thesis by (rule fetch_serves)
  qed
  have b: "fst (fetch k opts s) = Promise (fresh s) \<and>
            transport (snd (fetch k opts s)) = transport s @ [(k, fresh s)]"
    if "\<not> at_most (age (clock s) t0) (round_double m)"
  proof -
    have "serves s k opts = None"
      using assms(1-3) y that by (simp add: serves_def cached_def lookup_Some)
    with j show ?thesis by (simp add: fetch_starts_fst fetch_starts_transport)
  qed
  have c: "at_most (age (clock s) t0) (round_double m) = (a - b \<le> c)"
    if "clock s = 1000 * a" "t0 = 1000 * b" "m = of_int c"
      "\<bar>a\<bar> < 2 ^ 52" "\<bar>b\<bar> < 2 ^ 52" "\<bar>c\<bar> < 2 ^ 53"
    unfolding that(1-3) using that(4-6) by (rule young_whole_seconds)
  from a b c show ?thesis by blast
qed

theorem C4_witness:
  "history later ''/items'' = Some \<lparr>data = Some (JStr ''ok''), ts = Some 1000, promise = None\<rparr> \<and>
   truthy (JStr ''ok'') \<and> clock later = 61000 \<and>
   at_most (age 61000 1000) (round_double 60) \<and>
   fetch ''/items'' (defaults\<lparr>maxAge := Seconds 60\<rparr>) later = (Resolved (JStr ''ok''), later) \<and>
   history stale ''/items'' = Some \<lparr>data = Some (JStr ''ok''), ts = Some 1000, promise = None\<rparr> \<and>
   clock stale = 62000 \<and>
   \<not> at_most (age 62000 1000) (round_double 60) \<and>
   fst (fetch ''/items'' (defaults\<lparr>maxAge := Seconds 60\<rparr>) stale) = Promise 1 \<and>
   transport (snd (fetch ''/items'' (defaults\<lparr>maxAge := Seconds 60\<rparr>) stale)) =
     [(''/items'', 0), (''/items'', 1)]"
proof -
  have l: "history later ''/items'' = Some \<lparr>data = Some (JStr ''ok''), ts = Some 1000, promise = None\<rparr>"
    "clock later = 61000"
    by (simp_all add: later_def warm_def model_defs)
  have s: "history stale ''/items'' = Some \<lparr>data = Some (JStr ''ok''), ts = Some 1000, promise = None\<rparr>"
    "clock stale = 62000" "fresh stale = 1" "transport stale = [(''/items'', 0)]"
    by (simp_all add: stale_def warm_def model_defs)
  have m: "maxAge (defaults\<lparr>maxAge := Seconds 60\<rparr>) = Seconds 60" by simp
  have y1: "at_most (age 61000 1000) (round_double 60)"
    using young_whole_seconds [of 61 1 60] by simp
  have y2: "\<not> at_most (age 62000 1000) (round_double 60)"
    using young_whole_seconds [of 62 1 60] by simp
  show ?thesis
    using l s y1 y2
      C4_truthy_data_served_while_fresh [OF l(1) _ _ _ _ m, of "JStr ''ok''" 1000 61 1 60]
      C4_truthy_data_served_while_fresh [OF s(1) _ _ _ _ m, of "JStr ''ok''" 1000 62 1 60]
    by simp
qed

text \<open>
  Cached data \<open>0\<close> that is zero seconds old is not served with \<open>maxAge\<close> of 60 seconds:
  the call makes a transport call. Truthy data written at 1003 ms is not served at
  2003 ms with \<open>maxAge\<close> of one second, although it is exactly one second old: the
  difference of the two rounded quotients is above 1.
\<close>

theorem C4_counterexample:
  "history zero ''/items'' = Some \<lparr>data = Some (JNum 0), ts = Some 1000, promise = None\<rparr> \<and>
   clock zero = 1000 \<and>
   fst (fetch ''/items'' (defaults\<lparr>maxAge := Seconds 60\<rparr>) zero) = Promise 1 \<and>
   transport (snd (fetch ''/items'' (defaults\<lparr>maxAge := Seconds 60\<rparr>) zero)) =
     transport zero @ [(''/items'', 1)] \<and>
   history edge ''/items'' = Some \<lparr>data = Some (JStr ''ok''), ts = Some 1003, promise = None\<rparr> \<and>
   clock edge = 2003 \<and>
   rat_of_int (2003 - 1003) / 1000 \<le> 1 \<and>
   fst (fetch ''/items'' (defaults\<lparr>maxAge := Seconds 1\<rparr>) edge) = Promise 1 \<and>
   transport (snd (fetch ''/items'' (defaults\<lparr>maxAge := Seconds 1\<rparr>) edge)) =
     transport edge @ [(''/items'', 1)]"
proof -
  have z: "history zero ''/items'' = Some \<lparr>data = Some (JNum 0), ts = Some 1000, promise = None\<rparr> \<and>
   clock zero = 1000 \<and>
   fst (fetch ''/items'' (defaults\<lparr>maxAge := Seconds 60\<rparr>) zero) = Promise 1 \<and>
   transport (snd (fetch ''/items'' (defaults\<lparr>maxAge := Seconds 60\<rparr>) zero)) =
     transport zero @ [(''/items'', 1)]"
    by (simp add: zero_def model_defs)
  have one: "round_double 1 = Finite 1"
    using round_double_int [of 1] by simp
  have e: "history edge ''/items'' = Some \<lparr>data = Some (JStr ''ok''), ts = Some 1003, promise = None\<rparr> \<and>
   clock edge = 2003 \<and>
   fst (fetch ''/items'' (defaults\<lparr>maxAge := Seconds 1\<rparr>) edge) = Promise 1 \<and>
   transport (snd (fetch ''/items'' (defaults\<lparr>maxAge := Seconds 1\<rparr>) edge)) =
     transport edge @ [(''/items'', 1)]"
    by (simp add: edge_def model_defs age_2003_1003 one)
  from z e show ?thesis by simp
qed

section \<open>Not found\<close>

text \<open>
  C5. When a call starts a fetch and the transport answers its first call with status
  404, the promise rejects with the abort error whose message is \<open>404 Not found\<close>, the
  fetch has made exactly one transport call whatever \<open>retries\<close> is, data and timestamp
  of the item are as before the call, the registered promise is deleted, and no later
  answer changes anything.
\<close>

theorem C5_not_found_aborts:
  assumes "joins s k opts = None" and "serves s k opts = None"
  shows "state_of (reply (fresh s) (Response 404 body) (snd (fetch k opts s))) (fresh s) =
           Some (Rejected (AbortError ''404 Not found'')) \<and>
         transport (reply (fresh s) (Response 404 body) (snd (fetch k opts s))) =
           transport s @ [(k, fresh s)] \<and>
         data (lookup (reply (fresh s) (Response 404 body) (snd (fetch k opts s))) k) =
           data (lookup s k) \<and>
         ts (lookup (reply (fresh s) (Response 404 body) (snd (fetch k opts s))) k) =
           ts (lookup s k) \<and>
         inflight (reply (fresh s) (Response 404 body) (snd (fetch k opts s))) k = None \<and>
         reply (fresh s) res (reply (fresh s) (Response 404 body) (snd (fetch k opts s))) =
           reply (fresh s) (Response 404 body) (snd (fetch k opts s))"
proof -
  let ?s1 = "snd (fetch k opts s)"
  let ?r = "\<lparr>r_url = k, r_left = retries opts, r_state = Pending\<rparr>"
  let ?s2 = "settle (fresh s) ?r (Rejected (AbortError ''404 Not found'')) ?s1"
  have p: "promises ?s1 (fresh s) = Some ?r"
    by (simp add: fetch_starts_state [OF assms])
  have e: "reply (fresh s) (Response 404 body) ?s1 = ?s2"
    using p by (simp add: reply_404)
  have q: "promises ?s2 (fresh s) =
      Some (?r\<lparr>r_state := Rejected (AbortError ''404 Not found'')\<rparr>)"
    by (simp add: settle_def)
  have 1: "state_of ?s2 (fresh s) = Some (Rejected (AbortError ''404 Not found''))"
    by (simp add: settle_def state_of_def)
  have 2: "transport ?s2 = transport s @ [(k, fresh s)]"
    by (simp add: settle_def fetch_starts_state [OF assms])
  have 3: "data (lookup ?s2 k) = data (lookup s k) \<and> ts (lookup ?s2 k) = ts (lookup s k) \<and>
      inflight ?s2 k = None"
    by (simp add: settle_def fetch_starts_state [OF assms] lookup_def inflight_def)
  have 4: "reply (fresh s) res ?s2 = ?s2"
    using q by (rule reply_settled) simp
  from 1 2 3 4 show ?thesis unfolding e by simp
qed

theorem C5_witness:
  "joins (execute [Tick 1000] warm) ''/items'' \<lparr>maxAge = Seconds 0, retries = 5, force = False\<rparr> = None \<and>
   serves (execute [Tick 1000] warm) ''/items'' \<lparr>maxAge = Seconds 0, retries = 5, force = False\<rparr> = None \<and>
   state_of (reply 1 (Response 404 None)
      (snd (fetch ''/items'' \<lparr>maxAge = Seconds 0, retries = 5, force = False\<rparr> (execute [Tick 1000] warm)))) 1 =
     Some (Rejected (AbortError ''404 Not found'')) \<and>
   transport (reply 1 (Response 404 None)
      (snd (fetch ''/items'' \<lparr>maxAge = Seconds 0, retries = 5, force = False\<rparr> (execute [Tick 1000] warm)))) =
     [(''/items'', 0), (''/items'', 1)] \<and>
   data (lookup (reply 1 (Response 404 None)
      (snd (fetch ''/items'' \<lparr>maxAge = Seconds 0, retries = 5, force = False\<rparr> (execute [Tick 1000] warm)))) ''/items'') =
     Some (JStr ''ok'') \<and>
   inflight (reply 1 (Response 404 None)
      (snd (fetch ''/items'' \<lparr>maxAge = Seconds 0, retries = 5, force = False\<rparr> (execute [Tick 1000] warm)))) ''/items'' =
     None"
proof -
  let ?o = "\<lparr>maxAge = Seconds 0, retries = 5, force = False\<rparr>"
  have y: "\<not> at_most (age 2000 1000) (round_double 0)"
    using young_whole_seconds [of 2 1 0] by simp
  have j: "joins (execute [Tick 1000] warm) ''/items'' ?o = None"
    and c: "serves (execute [Tick 1000] warm) ''/items'' ?o = None"
    and f: "fresh (execute [Tick 1000] warm) = 1"
    and t: "transport (execute [Tick 1000] warm) = [(''/items'', 0)]"
    and d: "data (lookup (execute [Tick 1000] warm) ''/items'') = Some (JStr ''ok'')"
    by (simp_all add: warm_def model_defs y)
  show ?thesis
    using j c f t d C5_not_found_aborts [OF j c, of None Failed]
    by simp
qed

text \<open>The message of the abort error is \<open>404 Not found\<close>, not \<open>Not found\<close>.\<close>

theorem C5_counterexample:
  "state_of (execute [Call ''/items'' (defaults\<lparr>retries := 5\<rparr>), Reply 0 (Response 404 None)]
      (init 1000)) 0 = Some (Rejected (AbortError ''404 Not found'')) \<and>
   state_of (execute [Call ''/items'' (defaults\<lparr>retries := 5\<rparr>), Reply 0 (Response 404 None)]
      (init 1000)) 0 \<noteq> Some (Rejected (AbortError ''Not found''))"
  by (simp add: model_defs)

section \<open>A failed fetch keeps the cache\<close>

text \<open>
  C6. When a call starts a fetch and an answer makes the pending promise of that fetch
  reject, the registered promise is deleted. The failing fetch stores nothing: if no
  other fetch of \<open>k\<close> has stored a parsed answer since the call, whatever else happened
  in between (calls, ticks, failures, answers for other urls), data and timestamp of the
  item are as before the call. If they were truthy data \<open>d0\<close> with a timestamp, a call
  with the default options right after resolves with \<open>d0\<close> and makes no transport call.
\<close>

theorem C6_failed_fetch_keeps_the_cache:
  assumes "joins s k opts = None" and "serves s k opts = None"
    and "undisturbed k evs (snd (fetch k opts s))"
    and "before = execute evs (snd (fetch k opts s))"
    and "state_of before (fresh s) = Some Pending"
    and "final = reply (fresh s) res before"
    and "state_of final (fresh s) = Some (Rejected e)"
  shows "inflight final k = None \<and>
         data (lookup final k) = data (lookup s k) \<and>
         ts (lookup final k) = ts (lookup s k) \<and>
         (data (lookup s k) = Some d0 \<and> truthy d0 \<and> ts (lookup s k) = Some t0 \<longrightarrow>
            fst (fetch k defaults final) = Resolved d0 \<and>
            transport (snd (fetch k defaults final)) = transport final)"
proof -
  let ?s1 = "snd (fetch k opts s)"
  let ?r = "\<lparr>r_url = k, r_left = retries opts, r_state = Pending\<rparr>"
  have p: "promises ?s1 (fresh s) = Some ?r" and f: "fresh s < fresh ?s1"
    by (simp_all add: fetch_starts_state [OF assms(1,2)])
  have d: "data (lookup ?s1 k) = data (lookup s k)" "ts (lookup ?s1 k) = ts (lookup s k)"
    by (simp_all add: fetch_data)
  have u: "data (lookup before k) = data (lookup ?s1 k) \<and>
         ts (lookup before k) = ts (lookup ?s1 k) \<and>
         (\<exists>r'. promises before (fresh s) = Some r' \<and> r_url r' = k)"
    unfolding assms(4) by (rule undisturbed_execute [OF assms(3) p _ f]) simp
  then obtain r' where r': "promises before (fresh s) = Some r'" "r_url r' = k" by blast
  have pend: "r_state r' = Pending"
    using assms(5) r' by (simp add: state_of_def)
  have free: "inflight final k = None"
    using settling_deletes [OF r'(1) pend, of res] assms(7) r'(2)
    by (simp add: assms(6))
  have last: "data (lookup final k) = data (lookup before k) \<and>
         ts (lookup final k) = ts (lookup before k)"
    unfolding assms(6) using r'(1) pend assms(7) [unfolded assms(6)]
    by (rule rejecting_reply_data)
  have served: "fst (fetch k defaults final) = Resolved d0 \<and>
            transport (snd (fetch k defaults final)) = transport final"
    if "data (lookup s k) = Some d0" "truthy d0" "ts (lookup s k) = Some t0"
  proof -
    have j: "joins final k defaults = None"
      using free by (simp add: joins_def running_def inflight_def)
    have c: "serves final k defaults = Some d0"
      using that last u d by (simp add: serves_def cached_def defaults_def)
    from j c show ?thesis by (rule fetch_serves_fst)
  qed
  from last u d free served show ?thesis by simp
qed

theorem C6_witness:
  "joins (execute [Tick 1000] warm) ''/items'' (defaults\<lparr>force := True, maxAge := Seconds 0\<rparr>) = None \<and>
   serves (execute [Tick 1000] warm) ''/items'' (defaults\<lparr>force := True, maxAge := Seconds 0\<rparr>) = None \<and>
   undisturbed ''/items'' [Call ''/items'' defaults, Tick 500, Reply 1 Failed,
       Call ''/other'' defaults, Reply 2 (Response 200 (Some (JNum 7)))]
     (snd (fetch ''/items'' (defaults\<lparr>force := True, maxAge := Seconds 0\<rparr>)
        (execute [Tick 1000] warm))) \<and>
   state_of (execute [Call ''/items'' defaults, Tick 500, Reply 1 Failed,
       Call ''/other'' defaults, Reply 2 (Response 200 (Some (JNum 7)))]
     (snd (fetch ''/items'' (defaults\<lparr>force := True, maxAge := Seconds 0\<rparr>)
        (execute [Tick 1000] warm)))) 1 = Some Pending \<and>
   state_of refresh_lost 1 = Some (Rejected ParseError) \<and>
   data (lookup (execute [Tick 1000] warm) ''/items'') = Some (JStr ''ok'') \<and>
   truthy (JStr ''ok'') \<and>
   ts (lookup (execute [Tick 1000] warm) ''/items'') = Some 1000 \<and>
   inflight refresh_lost ''/items'' = None \<and>
   data (lookup refresh_lost ''/items'') = Some (JStr ''ok'') \<and>
   ts (lookup refresh_lost ''/items'') = Some 1000 \<and>
   fst (fetch ''/items'' defaults refresh_lost) = Resolved (JStr ''ok'') \<and>
   transport (snd (fetch ''/items'' defaults refresh_lost)) = transport refresh_lost"
proof -
  let ?o = "defaults\<lparr>force := True, maxAge := Seconds 0\<rparr>"
  let ?s = "execute [Tick 1000] warm"
  let ?evs = "[Call ''/items'' defaults, Tick 500, Reply 1 Failed,
       Call ''/other'' defaults, Reply 2 (Response 200 (Some (JNum 7)))]"
  have y: "\<not> at_most (age 2000 1000) (round_double 0)"
    using young_whole_seconds [of 2 1 0] by simp
  have j: "joins ?s ''/items'' ?o = None"
    and c: "serves ?s ''/items'' ?o = None"
    and f: "fresh ?s = 1"
    and d: "data (lookup ?s ''/items'') = Some (JStr ''ok'')"
      "ts (lookup ?s ''/items'') = Some 1000"
    by (simp_all add: warm_def model_defs y)
  have u: "undisturbed ''/items'' ?evs (snd (fetch ''/items'' ?o ?s))"
    by (simp add: warm_def model_defs y)
  have b: "state_of (execute ?evs (snd (fetch ''/items'' ?o ?s))) (fresh ?s) = Some Pending"
    by (simp add: warm_def model_defs y)
  have l: "refresh_lost = reply (fresh ?s) (Response 500 None)
      (execute ?evs (snd (fetch ''/items'' ?o ?s)))"
    by (simp only: refresh_lost_def f)
  have e: "state_of refresh_lost (fresh ?s) = Some (Rejected ParseError)"
    by (simp add: refresh_lost_def warm_def model_defs y)
  have b': "state_of (execute ?evs (snd (fetch ''/items'' ?o ?s))) 1 = Some Pending"
    using b by (simp only: f)
  have e': "state_of refresh_lost 1 = Some (Rejected ParseError)"
    using e by (simp only: f)
  show ?thesis
    using j c u b' e' d
      C6_failed_fetch_keeps_the_cache [OF j c u refl b l e, of "JStr ''ok''" 1000]
    by simp
qed

text \<open>
  With cached data \<open>0\<close>, a forced refresh that fails leaves the data in the item, but a
  call with the default options right after does not resolve with it: it starts a fetch.
  And when a forced fetch is started while an earlier fetch of the url is pending, and
  the earlier one is answered before the forced one fails, the data of the item is not
  what it was before the forced call.
\<close>

theorem C6_counterexample:
  "data (lookup zero ''/items'') = Some (JNum 0) \<and>
   state_of refresh_failed 1 = Some (Rejected FetchError) \<and>
   data (lookup refresh_failed ''/items'') = Some (JNum 0) \<and>
   inflight refresh_failed ''/items'' = None \<and>
   fst (fetch ''/items'' defaults refresh_failed) = Promise 2 \<and>
   fst (fetch ''/items'' defaults refresh_failed) \<noteq> Resolved (JNum 0) \<and>
   transport (snd (fetch ''/items'' defaults refresh_failed)) =
     transport refresh_failed @ [(''/items'', 2)] \<and>
   data (lookup (execute [Call ''/items'' defaults] (init 1000)) ''/items'') = None \<and>
   fst (fetch ''/items'' \<lparr>maxAge = Infinity, retries = 0, force = True\<rparr>
      (execute [Call ''/items'' defaults] (init 1000))) = Promise 1 \<and>
   state_of overtaken 1 = Some (Rejected FetchError) \<and>
   data (lookup overtaken ''/items'') = Some (JStr ''ok'')"
  by (simp add: refresh_failed_def overtaken_def zero_def model_defs)

section \<open>Retry, then success\<close>

text \<open>
  C7. When a call with at least two retries, so with \<open>retries: 3\<close>, starts a fetch, the
  transport fails retryably on the first two calls and answers the third with a body
  that parses to \<open>v\<close>, then the promise is fulfilled with \<open>v\<close>, the data of the item is
  \<open>v\<close>, its timestamp is the clock at the third answer, the registered promise is
  deleted, and the fetch has made three transport calls.
\<close>

theorem C7_retry_then_succeed:
  assumes "joins s k opts = None" and "serves s k opts = None" and "2 \<le> retries opts"
    and "retryable r1" and "retryable r2" and "st \<noteq> 404"
    and "final = execute [Tick d1, Reply (fresh s) r1, Tick d2, Reply (fresh s) r2, Tick d3,
           Reply (fresh s) (Response st (Some v))] (snd (fetch k opts s))"
  shows "state_of final (fresh s) = Some (Fulfilled v) \<and>
         data (lookup final k) = Some v \<and>
         ts (lookup final k) = Some (clock final) \<and>
         clock final = clock s + int d1 + int d2 + int d3 \<and>
         inflight final k = None \<and>
         transport final = transport s @ [(k, fresh s), (k, fresh s), (k, fresh s)]"
proof -
  let ?p = "fresh s"
  let ?h = "(history s)(k := Some ((lookup s k)\<lparr>promise := Some ?p\<rparr>))"
  let ?r = "\<lparr>r_url = k, r_left = retries opts, r_state = Pending\<rparr>"
  define s1 where "s1 = step (Tick d1) (snd (fetch k opts s))"
  define s2 where "s2 = step (Tick d2) (reply ?p r1 s1)"
  define s3 where "s3 = step (Tick d3) (reply ?p r2 s2)"
  have f: "final = reply ?p (Response st (Some v)) s3"
    by (simp add: assms(7) execute_Cons execute_Nil s1_def s2_def s3_def)
  have e1: "s1 = s\<lparr>history := ?h, promises := (promises s)(?p := Some ?r), fresh := Suc ?p,
      clock := clock s + int d1, transport := transport s @ [(k, ?p)]\<rparr>"
    by (simp add: s1_def fetch_starts_state [OF assms(1,2)])
  have e2: "s2 = s\<lparr>history := ?h,
      promises := (promises s)(?p := Some (?r\<lparr>r_left := retries opts - 1\<rparr>)), fresh := Suc ?p,
      clock := clock s + int d1 + int d2, transport := transport s @ [(k, ?p), (k, ?p)]\<rparr>"
    using assms(3) by (simp add: s2_def e1 reply_retryable [OF assms(4)] again_def)
  have e3: "s3 = s\<lparr>history := ?h,
      promises := (promises s)(?p := Some (?r\<lparr>r_left := retries opts - 1 - 1\<rparr>)), fresh := Suc ?p,
      clock := clock s + int d1 + int d2 + int d3,
      transport := transport s @ [(k, ?p), (k, ?p), (k, ?p)]\<rparr>"
    using assms(3) by (simp add: s3_def e2 reply_retryable [OF assms(5)] again_def)
  have p3: "promises s3 ?p = Some (?r\<lparr>r_left := retries opts - 1 - 1\<rparr>)"
    by (simp add: e3)
  have e4: "final = settle ?p (?r\<lparr>r_left := retries opts - 1 - 1\<rparr>) (Fulfilled v) (store k v s3)"
    using reply_parsed [OF p3 _ assms(6), of v] by (simp add: f)
  show ?thesis
    by (simp add: e4 e3 settle_def store_def state_of_def lookup_def inflight_def)
qed

theorem C7_witness:
  "joins (init 1000) ''/items'' (defaults\<lparr>retries := 3\<rparr>) = None \<and>
   serves (init 1000) ''/items'' (defaults\<lparr>retries := 3\<rparr>) = None \<and>
   (2::nat) \<le> retries (defaults\<lparr>retries := 3\<rparr>) \<and>
   retryable Failed \<and> retryable (Response 503 None) \<and> (200::nat) \<noteq> 404 \<and>
   state_of (execute [Tick 5, Reply 0 Failed, Tick 1000, Reply 0 (Response 503 None), Tick 2000,
       Reply 0 (Response 200 (Some (JStr ''ok'')))]
     (snd (fetch ''/items'' (defaults\<lparr>retries := 3\<rparr>) (init 1000)))) 0 = Some (Fulfilled (JStr ''ok'')) \<and>
   data (lookup (execute [Tick 5, Reply 0 Failed, Tick 1000, Reply 0 (Response 503 None), Tick 2000,
       Reply 0 (Response 200 (Some (JStr ''ok'')))]
     (snd (fetch ''/items'' (defaults\<lparr>retries := 3\<rparr>) (init 1000)))) ''/items'') = Some (JStr ''ok'') \<and>
   ts (lookup (execute [Tick 5, Reply 0 Failed, Tick 1000, Reply 0 (Response 503 None), Tick 2000,
       Reply 0 (Response 200 (Some (JStr ''ok'')))]
     (snd (fetch ''/items'' (defaults\<lparr>retries := 3\<rparr>) (init 1000)))) ''/items'') = Some 4005 \<and>
   transport (execute [Tick 5, Reply 0 Failed, Tick 1000, Reply 0 (Response 503 None), Tick 2000,
       Reply 0 (Response 200 (Some (JStr ''ok'')))]
     (snd (fetch ''/items'' (defaults\<lparr>retries := 3\<rparr>) (init 1000)))) =
     [(''/items'', 0), (''/items'', 0), (''/items'', 0)]"
proof -
  have j: "joins (init 1000) ''/items'' (defaults\<lparr>retries := 3\<rparr>) = None"
    and c: "serves (init 1000) ''/items'' (defaults\<lparr>retries := 3\<rparr>) = None"
    by (simp_all add: model_defs)
  have n: "(2::nat) \<le> retries (defaults\<lparr>retries := 3\<rparr>)" by simp
  have r1: "retryable Failed" and r2: "retryable (Response 503 None)" and st: "(200::nat) \<noteq> 404"
    by simp_all
  have i: "fresh (init 1000) = 0" "clock (init 1000) = 1000" "transport (init 1000) = []"
    by (simp_all add: init_def)
  show ?thesis
    using j c n r1 r2 st
      C7_retry_then_succeed [OF j c n r1 r2 st refl, of 5 1000 2000 "JStr ''ok''"]
    by (simp add: i)
qed

section \<open>Settling deletes the registered promise\<close>

text \<open>
  C8. When an answer settles a pending promise, fulfilled or rejected, the item of its
  url has no registered promise afterwards. Hence in every store reached from the empty
  one, a registered promise is a pending one: no settled fetch is left in an item.
\<close>

theorem C8_settling_deletes_the_promise:
  "(promises s p = Some r \<and> r_state r = Pending \<and>
      state_of (reply p res s) p \<noteq> Some Pending \<longrightarrow>
    inflight (reply p res s) (r_url r) = None) \<and>
   (inflight (execute evs (init t)) k = Some q \<longrightarrow> state_of (execute evs (init t)) q = Some Pending)"
proof -
  have "tidy (execute evs (init t))"
    using tidy_init by (rule tidy_execute)
  then have "inflight (execute evs (init t)) k = Some q \<longrightarrow>
      state_of (execute evs (init t)) q = Some Pending"
    by (auto simp: tidy_def state_of_def)
  with settling_deletes [of s p r res] show ?thesis by blast
qed

theorem C8_witness:
  "promises busy 0 = Some \<lparr>r_url = ''/items'', r_left = 1, r_state = Pending\<rparr> \<and>
   state_of (reply 0 (Response 404 None) busy) 0 \<noteq> Some Pending \<and>
   inflight (reply 0 (Response 404 None) busy) ''/items'' = None \<and>
   inflight (execute [Call ''/items'' defaults, Call ''/items'' (defaults\<lparr>force := True\<rparr>),
       Reply 0 (Response 404 None), Call ''/items'' defaults] (init 1000)) ''/items'' = Some 2 \<and>
   state_of (execute [Call ''/items'' defaults, Call ''/items'' (defaults\<lparr>force := True\<rparr>),
       Reply 0 (Response 404 None), Call ''/items'' defaults] (init 1000)) 2 = Some Pending"
proof -
  let ?evs = "[Call ''/items'' defaults, Call ''/items'' (defaults\<lparr>force := True\<rparr>),
       Reply 0 (Response 404 None), Call ''/items'' defaults]"
  have p: "promises busy 0 = Some \<lparr>r_url = ''/items'', r_left = 1, r_state = Pending\<rparr>"
    and s: "state_of (reply 0 (Response 404 None) busy) 0 \<noteq> Some Pending"
    by (simp_all add: busy_def model_defs)
  have i: "inflight (execute ?evs (init 1000)) ''/items'' = Some 2"
    by (simp add: model_defs)
  show ?thesis
    using p s i
      C8_settling_deletes_the_promise [of busy 0
        "\<lparr>r_url = ''/items'', r_left = 1, r_state = Pending\<rparr>" "Response 404 None"
        ?evs 1000 "''/items''" 2]
    by simp
qed

section \<open>Falsy data is never served\<close>

text \<open>
  C9. When the data of the item of \<open>k\<close> is falsy (\<open>null\<close>, \<open>0\<close>, the empty string or
  \<open>false\<close>) and no promise is registered, every call of \<open>fetch\<close> for \<open>k\<close> skips the
  freshness test and makes a new transport call, whatever \<open>maxAge\<close> is.
\<close>

theorem C9_falsy_data_refetched:
  assumes "history s k = Some it" and "data it = Some v" and "\<not> truthy v"
    and "promise it = None"
  shows "fst (fetch k opts s) = Promise (fresh s) \<and>
         transport (snd (fetch k opts s)) = transport s @ [(k, fresh s)] \<and>
         state_of (snd (fetch k opts s)) (fresh s) = Some Pending"
proof -
  have j: "joins s k opts = None"
    using assms by (simp add: joins_def running_def lookup_Some)
  have c: "serves s k opts = None"
    using assms by (simp add: serves_def cached_def lookup_Some)
  have "state_of (snd (fetch k opts s)) (fresh s) = Some Pending"
    by (simp add: fetch_starts [OF j c] start_def Let_def state_of_def)
  with fetch_starts_fst [OF j c] fetch_starts_transport [OF j c] show ?thesis by simp
qed

theorem C9_witness:
  "history zero ''/items'' = Some \<lparr>data = Some (JNum 0), ts = Some 1000, promise = None\<rparr> \<and>
   \<not> truthy (JNum 0) \<and>
   fst (fetch ''/items'' (defaults\<lparr>maxAge := Seconds 3600\<rparr>) zero) = Promise 1 \<and>
   transport (snd (fetch ''/items'' (defaults\<lparr>maxAge := Seconds 3600\<rparr>) zero)) =
     [(''/items'', 0), (''/items'', 1)]"
proof -
  have h: "history zero ''/items'' = Some \<lparr>data = Some (JNum 0), ts = Some 1000, promise = None\<rparr>"
    by (simp add: zero_def model_defs)
  have f: "fresh zero = 1" and t: "transport zero = [(''/items'', 0)]"
    by (simp_all add: zero_def model_defs)
  show ?thesis
    using h f t C9_falsy_data_refetched [OF h, of "JNum 0" "defaults\<lparr>maxAge := Seconds 3600\<rparr>"]
    by simp
qed

section \<open>A forced fetch overtaking a running one\<close>

text \<open>
  C10. The handlers delete \<open>item.promise\<close> whatever it refers to. When a forced call
  starts a second fetch while the first is pending, the second promise is registered;
  when the first settles, the item has no registered promise although the second is
  still pending. A later call without \<open>force\<close> therefore never joins the second fetch:
  it starts a third one, with a transport call of its own, unless the freshness test
  serves it truthy data from the cache, in which case it makes no transport call.
\<close>

theorem C10_earlier_settlement_deletes_newer_promise:
  assumes "history s k = Some it" and "promise it = Some p"
    and "promises s p = Some r" and "r_state r = Pending" and "r_url r = k"
    and "p \<noteq> fresh s"
    and "force opts" and "serves s k opts = None"
    and "s2 = reply p res (snd (fetch k opts s))"
    and "state_of s2 p \<noteq> Some Pending"
    and "\<not> force opts'"
  shows "fst (fetch k opts s) = Promise (fresh s) \<and>
         inflight (snd (fetch k opts s)) k = Some (fresh s) \<and>
         inflight s2 k = None \<and>
         state_of s2 (fresh s) = Some Pending \<and>
         joins s2 k opts' = None \<and>
         (serves s2 k opts' = None \<longrightarrow>
            fst (fetch k opts' s2) = Promise (Suc (fresh s)) \<and>
            transport (snd (fetch k opts' s2)) = transport s2 @ [(k, Suc (fresh s))] \<and>
            state_of (snd (fetch k opts' s2)) (fresh s) = Some Pending) \<and>
         (serves s2 k opts' = Some d \<longrightarrow>
            fst (fetch k opts' s2) = Resolved d \<and>
            transport (snd (fetch k opts' s2)) = transport s2)"
proof -
  let ?s1 = "snd (fetch k opts s)"
  have j: "joins s k opts = None"
    using assms(7) by (simp add: joins_def running_def)
  note st = fetch_starts_state [OF j assms(8)]
  have p1: "promises ?s1 p = Some r"
    using assms(3,6) by (simp add: st)
  have q1: "promises ?s1 (fresh s) = Some \<lparr>r_url = k, r_left = retries opts, r_state = Pending\<rparr>"
    by (simp add: st)
  have f2: "fresh s2 = Suc (fresh s)"
    by (simp add: assms(9) reply_fresh st)
  have free: "inflight s2 k = None"
    using settling_deletes [OF p1 assms(4), of res] assms(9,10,5) by simp
  have q2: "state_of s2 (fresh s) = Some Pending"
    using assms(6) q1 by (simp add: assms(9) state_of_def reply_other)
  have j2: "joins s2 k opts' = None"
    using free assms(11) by (simp add: joins_def running_def inflight_def)
  have new: "fst (fetch k opts' s2) = Promise (Suc (fresh s)) \<and>
            transport (snd (fetch k opts' s2)) = transport s2 @ [(k, Suc (fresh s))] \<and>
            state_of (snd (fetch k opts' s2)) (fresh s) = Some Pending"
    if c: "serves s2 k opts' = None"
  proof -
    have "state_of (snd (fetch k opts' s2)) (fresh s) = state_of s2 (fresh s)"
      by (simp add: fetch_starts_state [OF j2 c] state_of_def f2)
    with q2 fetch_starts_fst [OF j2 c] fetch_starts_transport [OF j2 c] f2
    show ?thesis by simp
  qed
  have old: "fst (fetch k opts' s2) = Resolved d \<and>
            transport (snd (fetch k opts' s2)) = transport s2"
    if "serves s2 k opts' = Some d"
    using j2 that by (rule fetch_serves_fst)
  from fetch_starts_fst [OF j assms(8)] fetch_starts_inflight [OF j assms(8)]
    free q2 j2 new old
  show ?thesis by blast
qed

theorem C10_witness:
  "history busy ''/items'' = Some \<lparr>data = None, ts = None, promise = Some 0\<rparr> \<and>
   promises busy 0 = Some \<lparr>r_url = ''/items'', r_left = 1, r_state = Pending\<rparr> \<and>
   0 \<noteq> fresh busy \<and>
   force (defaults\<lparr>force := True\<rparr>) \<and>
   serves busy ''/items'' (defaults\<lparr>force := True\<rparr>) = None \<and>
   raced_lost = reply 0 (Response 404 None) (snd (fetch ''/items'' (defaults\<lparr>force := True\<rparr>) busy)) \<and>
   state_of raced_lost 0 \<noteq> Some Pending \<and>
   \<not> force defaults \<and>
   serves raced_lost ''/items'' defaults = None \<and>
   inflight (snd (fetch ''/items'' (defaults\<lparr>force := True\<rparr>) busy)) ''/items'' = Some 1 \<and>
   inflight raced_lost ''/items'' = None \<and>
   state_of raced_lost 1 = Some Pending \<and>
   fst (fetch ''/items'' defaults raced_lost) = Promise 2 \<and>
   transport (snd (fetch ''/items'' defaults raced_lost)) =
     [(''/items'', 0), (''/items'', 1), (''/items'', 2)] \<and>
   state_of (snd (fetch ''/items'' defaults raced_lost)) 1 = Some Pending"
proof -
  let ?o = "defaults\<lparr>force := True\<rparr>"
  have h: "history busy ''/items'' = Some \<lparr>data = None, ts = None, promise = Some 0\<rparr>"
    and pi: "promise \<lparr>data = None, ts = None, promise = Some 0\<rparr> = Some 0"
    and p: "promises busy 0 = Some \<lparr>r_url = ''/items'', r_left = 1, r_state = Pending\<rparr>"
    and rs: "r_state \<lparr>r_url = ''/items'', r_left = 1, r_state = Pending\<rparr> = Pending"
    and ru: "r_url \<lparr>r_url = ''/items'', r_left = 1, r_state = Pending\<rparr> = ''/items''"
    and n: "0 \<noteq> fresh busy"
    and f: "force ?o"
    and c: "serves busy ''/items'' ?o = None"
    and fr: "fresh busy = 1"
    by (simp_all add: busy_def model_defs)
  have e: "raced_lost = reply 0 (Response 404 None) (snd (fetch ''/items'' ?o busy))"
    by (simp add: raced_lost_def busy_def execute_def)
  have s: "state_of raced_lost 0 \<noteq> Some Pending"
    and c2: "serves raced_lost ''/items'' defaults = None"
    and t2: "transport raced_lost = [(''/items'', 0), (''/items'', 1)]"
    by (simp_all add: raced_lost_def model_defs)
  have nf: "\<not> force defaults" by (simp add: defaults_def)
  show ?thesis
    using h p n f c e s nf c2 t2
      C10_earlier_settlement_deletes_newer_promise [OF h pi p rs ru n f c e s nf, of "JNull"]
    by (simp add: fr)
qed

text \<open>
  When the first fetch settles with a parsed truthy body, the later call without
  \<open>force\<close> is served from the cache: it makes no further transport call while the
  second fetch is still pending.
\<close>

theorem C10_counterexample:
  "inflight (execute [Call ''/items'' defaults, Call ''/items'' (defaults\<lparr>force := True\<rparr>)]
      (init 1000)) ''/items'' = Some 1 \<and>
   state_of raced 0 = Some (Fulfilled (JStr ''ok'')) \<and>
   state_of raced 1 = Some Pending \<and>
   inflight raced ''/items'' = None \<and>
   fst (fetch ''/items'' defaults raced) = Resolved (JStr ''ok'') \<and>
   transport (snd (fetch ''/items'' defaults raced)) = transport raced \<and>
   transport raced = [(''/items'', 0), (''/items'', 1)]"
  by (simp add: raced_def model_defs)

end
